theory Spec2Isabelle
  imports Complex_Main "HOL-Library.Sublist"
begin

section \<open>Go machine integers\<close>

text \<open>
  Go's \<open>int64\<close> (and \<open>int\<close> on the 64-bit targets the proxy is built for) is modelled as
  an \<open>int\<close> with the two's-complement wrap-around written out: every arithmetic result is
  passed through \<open>int64\<close>.
\<close>

definition int64 :: "int \<Rightarrow> int" where
  "int64 x = (x + 2 ^ 63) mod 2 ^ 64 - 2 ^ 63"

text \<open>
  A Go panic is a value: the run-time panic of a shift by a negative count, and that of a
  method call on a \<open>nil\<close> error.
\<close>

datatype go_panic = NegativeShiftCount | NilDereference

text \<open>
  \<open>int64(1 << n)\<close> with a non-constant count \<open>n\<close> of type \<open>int\<close>: the untyped constant
  takes the type \<open>int64\<close>, the shift is done in 64 bits (a count of 64 or more gives 0), and
  a negative count panics.
\<close>

definition shl1_int64 :: "int \<Rightarrow> go_panic + int" where
  "shl1_int64 n = (if n < 0 then Inl NegativeShiftCount else Inr (int64 (2 ^ nat n)))"

section \<open>Accounts (internal/models/account.go)\<close>

text \<open>
  The file holds two revisions of the package one after the other; the later one (lines 79
  to 244), which has the rate-limit and permission fields, is the one modelled. A \<open>nil\<close>
  pointer is \<open>None\<close>.
\<close>

record Model =
  ID :: string
  Object :: string
  OwnedBy :: string

record UsageStats =
  TotalTokens :: int
  InputTokens :: int
  OutputTokens :: int
  RequestCount :: int
  LastUsed :: "int option"

record ErrorTracking =
  ConsecutiveFailures :: int
  LastError :: string
  LastErrorTime :: "int option"
  FailedUntil :: "int option"
  RateLimitCount :: int
  RateLimitBackoff :: int
  IsPermissionDenied :: bool

record Account =
  AccountID :: string
  Email :: string
  Name :: string
  AccessToken :: string
  RefreshToken :: string
  ExpiresIn :: int
  Timestamp :: int
  Enable :: bool
  Models :: "(string \<times> Model) list"
  LastRefresh :: int
  RefreshStatus :: string
  Usage :: "UsageStats option"
  ErrorTracking :: "ErrorTracking option"

text \<open>One reading of the wall clock: \<open>time.Now()\<close> as seconds, milliseconds and nanoseconds.\<close>

record clock =
  Unix :: int
  UnixMilli :: int
  UnixNano :: int

text \<open>The zero values \<open>&ErrorTracking{}\<close> and \<open>&UsageStats{}\<close>.\<close>

definition zeroErrorTracking :: ErrorTracking where
  "zeroErrorTracking =
     \<lparr>ConsecutiveFailures = 0, LastError = [], LastErrorTime = None, FailedUntil = None,
      RateLimitCount = 0, RateLimitBackoff = 0, IsPermissionDenied = False\<rparr>"

definition zeroUsageStats :: UsageStats where
  "zeroUsageStats =
     \<lparr>TotalTokens = 0, InputTokens = 0, OutputTokens = 0, RequestCount = 0, LastUsed = None\<rparr>"

text \<open>\<open>if a.ErrorTracking == nil { a.ErrorTracking = &ErrorTracking{} }\<close>\<close>

definition errorTrackingOrZero :: "Account \<Rightarrow> ErrorTracking" where
  "errorTrackingOrZero a = (case ErrorTracking a of None \<Rightarrow> zeroErrorTracking | Some e \<Rightarrow> e)"

text \<open>\<open>Account.IsInCooldown\<close> (lines 138 to 144).\<close>

definition IsInCooldown :: "clock \<Rightarrow> Account \<Rightarrow> bool" where
  "IsInCooldown t a =
     (case ErrorTracking a of
        None \<Rightarrow> False
      | Some e \<Rightarrow> (case FailedUntil e of None \<Rightarrow> False | Some fu \<Rightarrow> Unix t < fu))"

text \<open>
  The recorders of an outcome (lines 160 to 231), each with the clock reading of its call;
  \<open>RecordFailure\<close> panics when the failure count it shifts by is negative.
\<close>

definition RecordSuccess :: "clock \<Rightarrow> Account \<Rightarrow> Account" where
  "RecordSuccess t a =
     a\<lparr>RefreshStatus := ''success'',
       LastRefresh := UnixMilli t,
       ErrorTracking := Some ((errorTrackingOrZero a)
         \<lparr>ConsecutiveFailures := 0, LastError := [], LastErrorTime := None,
          FailedUntil := None, RateLimitCount := 0, RateLimitBackoff := 0\<rparr>)\<rparr>"

definition RecordFailure :: "clock \<Rightarrow> string \<Rightarrow> Account \<Rightarrow> go_panic + Account" where
  "RecordFailure t err a =
     (let e = errorTrackingOrZero a;
          failures = int64 (ConsecutiveFailures e + 1);
          now = Unix t
      in case shl1_int64 failures of
           Inl p \<Rightarrow> Inl p
         | Inr shifted \<Rightarrow>
             (let cooldownSeconds = (if shifted > 3600 then 3600 else shifted);
                  failedUntil = int64 (now + cooldownSeconds)
              in Inr (a\<lparr>RefreshStatus := ''failed'',
                        ErrorTracking := Some (e
                          \<lparr>ConsecutiveFailures := failures, LastError := err,
                           LastErrorTime := Some now, FailedUntil := Some failedUntil\<rparr>)\<rparr>)))"

definition RecordRateLimit :: "clock \<Rightarrow> Account \<Rightarrow> Account" where
  "RecordRateLimit t a =
     (let e = errorTrackingOrZero a;
          now = Unix t;
          doubled = (if RateLimitBackoff e > 0 then int64 (RateLimitBackoff e * 2) else 120);
          backoffSeconds = (if doubled > 1800 then 1800 else doubled);
          failedUntil = int64 (now + backoffSeconds)
      in a\<lparr>RefreshStatus := ''rate_limited'',
           ErrorTracking := Some (e
             \<lparr>RateLimitCount := int64 (RateLimitCount e + 1),
              LastError := ''HTTP 429: Rate Limit Exceeded'',
              LastErrorTime := Some now,
              RateLimitBackoff := backoffSeconds,
              FailedUntil := Some failedUntil\<rparr>)\<rparr>)"

definition RecordPermissionDenied :: "clock \<Rightarrow> Account \<Rightarrow> Account" where
  "RecordPermissionDenied t a =
     a\<lparr>RefreshStatus := ''permission_denied'',
       Enable := False,
       ErrorTracking := Some ((errorTrackingOrZero a)
         \<lparr>IsPermissionDenied := True,
          LastError := ''HTTP 403: Permission Denied - Account does not have required entitlements'',
          LastErrorTime := Some (Unix t)\<rparr>)\<rparr>"

text \<open>\<open>Account.RecordUsage\<close> (lines 233 to 244).\<close>

definition RecordUsage :: "clock \<Rightarrow> int \<Rightarrow> int \<Rightarrow> Account \<Rightarrow> Account" where
  "RecordUsage t inputTokens outputTokens a =
     (let u = (case Usage a of None \<Rightarrow> zeroUsageStats | Some u \<Rightarrow> u)
      in a\<lparr>Usage := Some (u
           \<lparr>RequestCount := int64 (RequestCount u + 1),
            TotalTokens := int64 (TotalTokens u + int64 (inputTokens + outputTokens)),
            InputTokens := int64 (InputTokens u + inputTokens),
            OutputTokens := int64 (OutputTokens u + outputTokens),
            LastUsed := Some (UnixMilli t)\<rparr>)\<rparr>)"

section \<open>Go strings\<close>

text \<open>
  A Go string is a sequence of bytes: \<open>string\<close> here, \<open>length\<close> is \<open>len\<close>. The functions
  below are those of the \<open>strings\<close> and \<open>fmt\<close> packages that the modelled code calls.
\<close>

definition HasPrefix :: "string \<Rightarrow> string \<Rightarrow> bool" where
  "HasPrefix s p = prefix p s"

definition HasSuffix :: "string \<Rightarrow> string \<Rightarrow> bool" where
  "HasSuffix s p = suffix p s"

definition TrimPrefix :: "string \<Rightarrow> string \<Rightarrow> string" where
  "TrimPrefix s p = (if HasPrefix s p then drop (length p) s else s)"

definition TrimSuffix :: "string \<Rightarrow> string \<Rightarrow> string" where
  "TrimSuffix s p = (if HasSuffix s p then take (length s - length p) s else s)"

text \<open>\<open>strings.Index\<close>: the byte offset of the first occurrence; \<open>None\<close> stands for \<open>-1\<close>.\<close>

fun Index :: "string \<Rightarrow> string \<Rightarrow> nat option" where
  "Index [] sub = (if sub = [] then Some 0 else None)"
| "Index (c # cs) sub =
     (if prefix sub (c # cs) then Some 0 else map_option Suc (Index cs sub))"

text \<open>
  \<open>strings.Split\<close>: cut at every non-overlapping occurrence of the separator, left to
  right. The code only splits at a non-empty separator; for the empty one Go cuts after
  every UTF-8 sequence, given here byte-wise.
\<close>

function Split :: "string \<Rightarrow> string \<Rightarrow> string list" where
  "Split s sep =
     (if sep = [] then map (\<lambda>c. [c]) s
      else case Index s sep of
             None \<Rightarrow> [s]
           | Some i \<Rightarrow> take i s # Split (drop (i + length sep) s) sep)"
  by pat_completeness auto
termination
proof (relation "measure (\<lambda>(s, sep). length s)")
  show "wf (measure (\<lambda>(s, sep). length s))" by simp
next
  fix s sep :: string and i
  assume sep: "sep \<noteq> []" and ix: "Index s sep = Some i"
  have "Index s sep = Some j \<Longrightarrow> j + length sep \<le> length s" for j
    by (induction s arbitrary: j) (auto dest: prefix_length_le split: if_splits)
  from this [OF ix] sep have "length (drop (i + length sep) s) < length s"
    by (cases sep) auto
  then show "((drop (i + length sep) s, sep), (s, sep)) \<in> measure (\<lambda>(s, sep). length s)"
    by simp
qed

declare Split.simps [simp del]

text \<open>\<open>strings.Replace(s, old, new, 1)\<close>: only the first occurrence is replaced.\<close>

definition ReplaceFirst :: "string \<Rightarrow> string \<Rightarrow> string \<Rightarrow> string" where
  "ReplaceFirst s old new =
     (case Index s old of
        None \<Rightarrow> s
      | Some i \<Rightarrow> take i s @ new @ drop (i + length old) s)"

text \<open>
  \<open>strings.TrimSpace\<close> removes the leading and trailing runes for which
  \<open>unicode.IsSpace\<close> holds. \<open>spaceRunes\<close> lists their UTF-8 encodings: the six ASCII
  ones, U+0085, U+00A0, U+1680, U+2000 to U+200A, U+2028, U+2029, U+202F, U+205F, U+3000.
\<close>

definition spaceRunes :: "string list" where
  "spaceRunes =
     [[CHR 0x09], [CHR 0x0A], [CHR 0x0B], [CHR 0x0C], [CHR 0x0D], [CHR 0x20],
      [CHR 0xC2, CHR 0x85], [CHR 0xC2, CHR 0xA0],
      [CHR 0xE1, CHR 0x9A, CHR 0x80],
      [CHR 0xE2, CHR 0x80, CHR 0x80], [CHR 0xE2, CHR 0x80, CHR 0x81],
      [CHR 0xE2, CHR 0x80, CHR 0x82], [CHR 0xE2, CHR 0x80, CHR 0x83],
      [CHR 0xE2, CHR 0x80, CHR 0x84], [CHR 0xE2, CHR 0x80, CHR 0x85],
      [CHR 0xE2, CHR 0x80, CHR 0x86], [CHR 0xE2, CHR 0x80, CHR 0x87],
      [CHR 0xE2, CHR 0x80, CHR 0x88], [CHR 0xE2, CHR 0x80, CHR 0x89],
      [CHR 0xE2, CHR 0x80, CHR 0x8A],
      [CHR 0xE2, CHR 0x80, CHR 0xA8], [CHR 0xE2, CHR 0x80, CHR 0xA9],
      [CHR 0xE2, CHR 0x80, CHR 0xAF],
      [CHR 0xE2, CHR 0x81, CHR 0x9F],
      [CHR 0xE3, CHR 0x80, CHR 0x80]]"

text \<open>Drop leading occurrences of the given non-empty byte sequences.\<close>

function trimLeading :: "string list \<Rightarrow> string \<Rightarrow> string" where
  "trimLeading runes s =
     (case find (\<lambda>r. r \<noteq> [] \<and> prefix r s) runes of
        None \<Rightarrow> s
      | Some r \<Rightarrow> trimLeading runes (drop (length r) s))"
  by pat_completeness auto
termination
proof (relation "measure (\<lambda>(runes, s). length s)")
  show "wf (measure (\<lambda>(runes, s). length s))" by simp
next
  fix runes :: "string list" and s r :: string
  assume "find (\<lambda>r. r \<noteq> [] \<and> prefix r s) runes = Some r"
  then have "r \<noteq> []" "prefix r s" by (auto simp: find_Some_iff)
  then have "length (drop (length r) s) < length s"
    by (cases r; cases s) auto
  then show "((runes, drop (length r) s), (runes, s)) \<in> measure (\<lambda>(runes, s). length s)"
    by simp
qed

declare trimLeading.simps [simp del]

definition TrimSpace :: "string \<Rightarrow> string" where
  "TrimSpace s = rev (trimLeading (map rev spaceRunes) (rev (trimLeading spaceRunes s)))"

text \<open>\<open>%d\<close> of \<open>fmt.Sprintf\<close>: the decimal digits, with a minus sign when negative.\<close>

fun natDigits :: "nat \<Rightarrow> string" where
  "natDigits n =
     (if n < 10 then [''0123456789'' ! n]
      else natDigits (n div 10) @ [''0123456789'' ! (n mod 10)])"

declare natDigits.simps [simp del]

definition Itoa :: "int \<Rightarrow> string" where
  "Itoa n = (if n < 0 then CHR ''-'' # natDigits (nat (- n)) else natDigits (nat n))"

section \<open>Wire types (internal/models)\<close>

text \<open>
  A value decoded from JSON into Go's \<open>interface{}\<close>: \<open>nil\<close>, \<open>bool\<close>, \<open>float64\<close>,
  \<open>string\<close>, \<open>[]interface{}\<close> or \<open>map[string]interface{}\<close>. A map is given by its
  entries, one per key. The \<open>float64\<close> values of a request are only compared with zero and
  copied, never computed with; they are modelled as \<open>real\<close>.
\<close>

datatype json =
    JNull
  | JBool bool
  | JNumber real
  | JString string
  | JArray "json list"
  | JObject "(string \<times> json) list"

record Function =
  Name_fn :: string
  Description_fn :: string
  Parameters_fn :: json

record Tool =
  Type_tool :: string
  Function_tool :: Function

record ToolCall =
  ID_tc :: string
  Type_tc :: string
  Function_tc :: Function

record ChatCompletionMessage =
  Role_msg :: string
  Content_msg :: json
  Reasoning_msg :: string
  Name_msg :: string
  ToolCalls_msg :: "ToolCall list"
  ToolCallID_msg :: string

record ChatCompletionRequest =
  Model_req :: string
  Messages :: "ChatCompletionMessage list"
  Stream :: bool
  MaxTokens :: int
  Temperature :: real
  TopP :: real
  TopK :: int
  Tools :: "Tool list"
  ToolChoice :: json
  FrequencyPenalty :: real
  PresencePenalty :: real

record GoogleInlineData =
  MimeType :: string
  Data :: string

record GoogleFunctionCall =
  ID_fc :: string
  Name_fc :: string
  Args :: "(string \<times> json) list"

record GoogleFunctionResponse =
  ID_fr :: string
  Name_fr :: string
  Response_fr :: "(string \<times> json) list"

record GooglePart =
  Text :: string
  InlineData :: "GoogleInlineData option"
  FunctionCall :: "GoogleFunctionCall option"
  FunctionResponse :: "GoogleFunctionResponse option"
  Thought :: bool

record GoogleContent =
  Role_gc :: string
  Parts_gc :: "GooglePart list"

text \<open>
  \<open>transformRequest\<close> stores the budget as a plain \<open>int\<close>, which is the type taken here.
\<close>

record GoogleThinkingConfig =
  IncludeThoughts :: bool
  ThinkingBudget :: int
  ThinkingLevel :: string

record GoogleGenerationConfig =
  TopP_gen :: "real option"
  TopK_gen :: "int option"
  Temperature_gen :: "real option"
  CandidateCount :: int
  MaxOutputTokens :: "int option"
  StopSequences :: "string list"
  ThinkingConfig :: "GoogleThinkingConfig option"

record GoogleSystemInstruction =
  Role_si :: string
  Parts_si :: "GooglePart list"

record GoogleFunctionDeclaration =
  Name_fd :: string
  Description_fd :: string
  Parameters_fd :: json

record GoogleTool =
  FunctionDeclarations :: "GoogleFunctionDeclaration list"

record GoogleToolConfig =
  Mode :: string

record GoogleInner =
  Contents :: "GoogleContent list"
  GenerationConfig :: GoogleGenerationConfig
  SessionID :: string
  SystemInstruction :: "GoogleSystemInstruction option"
  Tools_inner :: "GoogleTool list"
  ToolConfig :: "GoogleToolConfig option"

record GoogleRequest =
  Project :: string
  RequestID :: string
  Request :: GoogleInner
  Model_g :: string
  UserAgent :: string

record GoogleUsage =
  PromptTokenCount :: int
  CandidatesTokenCount :: int
  TotalTokenCount :: int

record GoogleCandidate =
  Content_cand :: GoogleContent
  FinishReason_cand :: string

record GoogleResponseInner =
  Candidates :: "GoogleCandidate list"
  UsageMetadata :: "GoogleUsage option"

record GoogleResponse =
  Response :: GoogleResponseInner

record Usage_resp =
  PromptTokens :: int
  CompletionTokens :: int
  TotalTokens_resp :: int

record ChatCompletionChoice =
  Index_choice :: int
  Message :: ChatCompletionMessage
  FinishReason_choice :: string

record ChatCompletionResponse =
  ID_resp :: string
  Object_resp :: string
  Created_resp :: int
  Model_resp :: string
  Choices_resp :: "ChatCompletionChoice list"
  Usage_of_resp :: "Usage_resp option"
  SystemFingerprint_resp :: string

record ChatCompletionDelta =
  Role_delta :: string
  Content_delta :: string
  Reasoning_delta :: string
  ToolCalls_delta :: "ToolCall list"

record ChatCompletionChunkChoice =
  Index_cc :: int
  Delta :: ChatCompletionDelta
  FinishReason_cc :: "string option"

record ChatCompletionChunk =
  ID_chunk :: string
  Object_chunk :: string
  Created_chunk :: int
  Model_chunk :: string
  SystemFingerprint_chunk :: string
  Choices_chunk :: "ChatCompletionChunkChoice list"

section \<open>Request translation (transformRequest)\<close>

text \<open>
  \<open>Server.transformRequest\<close> of the proxy handler file (lines 235 to 391), cut at its own
  comments into the model name, the contents, the generation config and the tools.
\<close>

text \<open>The zero value \<open>GooglePart{}\<close>, and the two literals the translator builds from it.\<close>

definition zeroPart :: GooglePart where
  "zeroPart =
     \<lparr>Text = [], InlineData = None, FunctionCall = None, FunctionResponse = None,
      Thought = False\<rparr>"

definition textPart :: "string \<Rightarrow> GooglePart" where
  "textPart t = zeroPart\<lparr>Text := t\<rparr>"

definition inlinePart :: "string \<Rightarrow> string \<Rightarrow> GooglePart" where
  "inlinePart mime payload = zeroPart\<lparr>InlineData := Some \<lparr>MimeType = mime, Data = payload\<rparr>\<rparr>"

text \<open>
  The random draws of one call: the results of \<open>rand.Intn(5)\<close> twice and
  \<open>rand.Intn(100000)\<close> in \<open>generateProjectID\<close>, of \<open>uuid.New().String()\<close>, and of
  \<open>rand.Int63()\<close> in \<open>generateSessionID\<close>.
\<close>

record draws =
  adjDraw :: nat
  nounDraw :: nat
  numDraw :: nat
  uuidDraw :: string
  sessionDraw :: int

definition generateProjectID :: "draws \<Rightarrow> string" where
  "generateProjectID d =
     (let adjectives = [''useful'', ''bright'', ''swift'', ''calm'', ''bold''];
          nouns = [''fuze'', ''wave'', ''spark'', ''flow'', ''core''];
          adj = adjectives ! (adjDraw d mod length adjectives);
          noun = nouns ! (nounDraw d mod length nouns);
          num = numDraw d mod 100000
      in adj @ ''-'' @ noun @ ''-'' @ Itoa (int num))"

definition generateSessionID :: "draws \<Rightarrow> string" where
  "generateSessionID d = ''-'' @ Itoa (sessionDraw d)"

text \<open>The local \<open>enableThinking\<close>, computed from the requested model name.\<close>

definition enableThinking :: "string \<Rightarrow> bool" where
  "enableThinking modelName \<longleftrightarrow>
     HasSuffix modelName ''-thinking'' \<or> modelName = ''gemini-2.5-pro''
       \<or> HasPrefix modelName ''gemini-3-pro-''"

definition vendorModelName :: "string \<Rightarrow> string" where
  "vendorModelName modelName =
     (if HasSuffix modelName ''-thinking'' then TrimSuffix modelName ''-thinking''
      else modelName)"

text \<open>One element of a content array: a text part, an image given as a data URL, or nothing.\<close>

definition itemParts :: "json \<Rightarrow> GooglePart list" where
  "itemParts item =
     (case item of
        JObject partMap \<Rightarrow>
          (if map_of partMap ''type'' = Some (JString ''text'') then
             (case map_of partMap ''text'' of
                Some (JString text) \<Rightarrow> [textPart text]
              | _ \<Rightarrow> [])
           else if map_of partMap ''type'' = Some (JString ''image_url'') then
             (case map_of partMap ''image_url'' of
                Some (JObject imgURL) \<Rightarrow>
                  (case map_of imgURL ''url'' of
                     Some (JString url) \<Rightarrow>
                       (if HasPrefix url ''data:image/'' then
                          (let partsStr = Split url '';base64,''
                           in if length partsStr = 2
                              then [inlinePart (TrimPrefix (partsStr ! 0) ''data:'') (partsStr ! 1)]
                              else [])
                        else [])
                   | _ \<Rightarrow> [])
              | _ \<Rightarrow> [])
           else [])
      | _ \<Rightarrow> [])"

definition contentParts :: "json \<Rightarrow> GooglePart list" where
  "contentParts content =
     (case content of
        JString v \<Rightarrow> [textPart v]
      | JArray v \<Rightarrow> concat (map itemParts v)
      | _ \<Rightarrow> [])"

text \<open>
  The loop over the messages, with its two accumulators: the contents built so far and the
  system instruction (the last system message wins).
\<close>

fun buildContents ::
  "ChatCompletionMessage list \<Rightarrow> GoogleContent list \<Rightarrow> GoogleSystemInstruction option
     \<Rightarrow> GoogleContent list \<times> GoogleSystemInstruction option" where
  "buildContents [] contents systemInstruction = (contents, systemInstruction)"
| "buildContents (msg # rest) contents systemInstruction =
     (if Role_msg msg = ''system'' then
        (let text = (case Content_msg msg of JString str \<Rightarrow> str | _ \<Rightarrow> [])
         in buildContents rest contents
              (Some \<lparr>Role_si = ''user'', Parts_si = [textPart text]\<rparr>))
      else
        (let parts = contentParts (Content_msg msg);
             role = (if Role_msg msg = ''assistant'' then ''model'' else Role_msg msg)
         in buildContents rest (contents @ [\<lparr>Role_gc = role, Parts_gc = parts\<rparr>])
              systemInstruction))"

definition buildGenerationConfig :: "ChatCompletionRequest \<Rightarrow> GoogleGenerationConfig" where
  "buildGenerationConfig req =
     (let genConfig =
            \<lparr>TopP_gen = (if TopP req \<noteq> 0 then Some (TopP req) else None),
             TopK_gen = (if TopK req \<noteq> 0 then Some (TopK req) else None),
             Temperature_gen = (if Temperature req \<noteq> 0 then Some (Temperature req) else None),
             CandidateCount = 1,
             MaxOutputTokens = (if MaxTokens req \<noteq> 0 then Some (MaxTokens req) else None),
             StopSequences =
               [''<|user|>'', ''<|bot|>'', ''<|context_request|>'', ''<|endoftext|>'',
                ''<|end_of_turn|>''],
             ThinkingConfig = None\<rparr>
      in if enableThinking (Model_req req) then
           (let budget = 8192;
                minMaxTokens = budget + 4096
            in genConfig
                 \<lparr>ThinkingConfig :=
                    Some \<lparr>IncludeThoughts = True, ThinkingBudget = budget, ThinkingLevel = []\<rparr>,
                  MaxOutputTokens :=
                    (case MaxOutputTokens genConfig of
                       None \<Rightarrow> Some minMaxTokens
                     | Some m \<Rightarrow> if m \<le> budget then Some minMaxTokens else Some m)\<rparr>)
         else genConfig)"

definition buildTools :: "Tool list \<Rightarrow> GoogleTool list" where
  "buildTools tools =
     (if length tools > 0 then
        (let funcs = map (\<lambda>t. \<lparr>Name_fd = Name_fn (Function_tool t),
                                 Description_fd = Description_fn (Function_tool t),
                                 Parameters_fd = Parameters_fn (Function_tool t)\<rparr>)
                         (filter (\<lambda>t. Type_tool t = ''function'') tools)
         in if length funcs > 0 then [\<lparr>FunctionDeclarations = funcs\<rparr>] else [])
      else [])"

definition transformRequest :: "draws \<Rightarrow> ChatCompletionRequest \<Rightarrow> GoogleRequest" where
  "transformRequest d req =
     (let built = buildContents (Messages req) [] None
      in \<lparr>Project = generateProjectID d,
          RequestID = ''agent-'' @ uuidDraw d,
          Request =
            \<lparr>Contents = fst built,
             GenerationConfig = buildGenerationConfig req,
             SessionID = generateSessionID d,
             SystemInstruction = snd built,
             Tools_inner = buildTools (Tools req),
             ToolConfig = None\<rparr>,
          Model_g = vendorModelName (Model_req req),
          UserAgent = ''antigravity''\<rparr>)"

section \<open>Usage store (internal/storage, UsageStore)\<close>

record UsageRecord =
  Date :: string
  AccountID_rec :: string
  TotalTokens_rec :: int
  InputTokens_rec :: int
  OutputTokens_rec :: int
  RequestCount_rec :: int

text \<open>
  The usage directory. \<open>files\<close> gives, for each file name that \<open>os.ReadFile\<close> can read, the
  record that \<open>json.Unmarshal\<close> fills from its content (the code ignores a decoding error
  and goes on with what was decoded). \<open>mkdirAllOK\<close> and \<open>writeFileOK\<close> say whether
  \<open>os.MkdirAll\<close> and \<open>os.WriteFile\<close> succeed.
\<close>

record UsageStore =
  mkdirAllOK :: bool
  writeFileOK :: bool
  files :: "string \<Rightarrow> UsageRecord option"

definition usageFileName :: "string \<Rightarrow> string \<Rightarrow> string" where
  "usageFileName today accountID = today @ ''_'' @ accountID @ ''.json''"

text \<open>
  \<open>UsageStore.RecordUsage\<close> (internal/storage/account.go, lines 242 to 285); \<open>today\<close> is
  \<open>time.Now().Format("2006-01-02")\<close>, and the file is the one of that name in the usage
  directory. The result is the error, if any (its text without the cause it wraps), and
  the directory afterwards.
\<close>

definition UsageStore_RecordUsage ::
  "string \<Rightarrow> string \<Rightarrow> int \<Rightarrow> int \<Rightarrow> UsageStore \<Rightarrow> string option \<times> UsageStore" where
  "UsageStore_RecordUsage today accountID inputTokens outputTokens s =
     (if \<not> mkdirAllOK s then (Some ''failed to create usage directory'', s)
      else
        (let filename = usageFileName today accountID;
             record = (case files s filename of
                         Some r \<Rightarrow> r
                       | None \<Rightarrow> \<lparr>Date = today, AccountID_rec = accountID, TotalTokens_rec = 0,
                                   InputTokens_rec = 0, OutputTokens_rec = 0,
                                   RequestCount_rec = 0\<rparr>);
             record' = record
               \<lparr>InputTokens_rec := int64 (InputTokens_rec record + inputTokens),
                OutputTokens_rec := int64 (OutputTokens_rec record + outputTokens),
                TotalTokens_rec :=
                  int64 (TotalTokens_rec record + int64 (inputTokens + outputTokens)),
                RequestCount_rec := int64 (RequestCount_rec record + 1)\<rparr>
         in if writeFileOK s then (None, s\<lparr>files := (files s)(filename \<mapsto> record')\<rparr>)
            else (Some ''failed to write usage file'', s)))"

section \<open>Response translation (handleNormalResponse, handleStreamResponse)\<close>

text \<open>
  The two response handlers of the proxy handler file: \<open>handleNormalResponse\<close> (lines 393
  to 496) and \<open>handleStreamResponse\<close> (lines 498 to 573).
\<close>

text \<open>
  What a handler takes from its surroundings: \<open>Unmarshal\<close> is \<open>json.Unmarshal\<close> into a
  \<open>GoogleResponse\<close> (\<open>None\<close> when it returns an error); \<open>uuidAt n\<close> and \<open>unixAt n\<close> are
  the results of the \<open>n\<close>-th \<open>uuid.New().String()\<close> and \<open>time.Now().Unix()\<close> of the call;
  \<open>today\<close> is the date of the usage record.
\<close>

record handlerEnv =
  Unmarshal :: "string \<Rightarrow> GoogleResponse option"
  uuidAt :: "nat \<Rightarrow> string"
  unixAt :: "nat \<Rightarrow> int"
  today :: string

text \<open>The local variables of the aggregating loop.\<close>

record aggregate =
  content :: string
  reasoning :: string
  totalTokens :: int
  inputTokens :: int
  outputTokens :: int

definition zeroAggregate :: aggregate where
  "zeroAggregate =
     \<lparr>content = [], reasoning = [], totalTokens = 0, inputTokens = 0, outputTokens = 0\<rparr>"

text \<open>The loop over the parts of the first candidate: only a non-empty text is used.\<close>

fun accumulateParts :: "GooglePart list \<Rightarrow> aggregate \<Rightarrow> aggregate" where
  "accumulateParts [] st = st"
| "accumulateParts (part # rest) st =
     accumulateParts rest
       (if Text part \<noteq> [] then
          (if Thought part then st\<lparr>reasoning := reasoning st @ Text part\<rparr>
           else st\<lparr>content := content st @ Text part\<rparr>)
        else st)"

definition trackUsage :: "GoogleResponse \<Rightarrow> aggregate \<Rightarrow> aggregate" where
  "trackUsage googleResp st =
     (case UsageMetadata (Response googleResp) of
        None \<Rightarrow> st
      | Some u \<Rightarrow> st\<lparr>inputTokens := PromptTokenCount u,
                     outputTokens := CandidatesTokenCount u,
                     totalTokens := TotalTokenCount u\<rparr>)"

definition aggregateEvent :: "GoogleResponse \<Rightarrow> aggregate \<Rightarrow> aggregate" where
  "aggregateEvent googleResp st =
     trackUsage googleResp
       (case Candidates (Response googleResp) of
          [] \<Rightarrow> st
        | candidate # _ \<Rightarrow> accumulateParts (Parts_gc (Content_cand candidate)) st)"

text \<open>
  The scanner loop of \<open>handleNormalResponse\<close> over the lines that \<open>bufio.Scanner\<close> yields.
\<close>

fun aggregateLines :: "handlerEnv \<Rightarrow> string list \<Rightarrow> aggregate \<Rightarrow> aggregate" where
  "aggregateLines env [] st = st"
| "aggregateLines env (line # rest) st =
     (if \<not> HasPrefix line ''data: '' then aggregateLines env rest st
      else
        (let dataStr = TrimPrefix line ''data: ''
         in if dataStr = ''[DONE]'' then st
            else case Unmarshal env dataStr of
                   None \<Rightarrow> aggregateLines env rest st
                 | Some googleResp \<Rightarrow> aggregateLines env rest (aggregateEvent googleResp st)))"

text \<open>
  The inline usage update both handlers make on the account: nothing when the account has
  no usage block, otherwise the three counters and the request count are advanced and the
  account is saved. The result is the account and the \<open>Save\<close> calls made.
\<close>

definition recordUsageInline ::
  "int \<Rightarrow> int \<Rightarrow> int \<Rightarrow> Account \<Rightarrow> Account \<times> Account list" where
  "recordUsageInline totalTok inputTok outputTok account =
     (case Usage account of
        None \<Rightarrow> (account, [])
      | Some u \<Rightarrow>
          (let account' = account\<lparr>Usage := Some (u
                 \<lparr>TotalTokens := int64 (TotalTokens u + totalTok),
                  InputTokens := int64 (InputTokens u + inputTok),
                  OutputTokens := int64 (OutputTokens u + outputTok),
                  RequestCount := int64 (RequestCount u + 1)\<rparr>)\<rparr>
           in (account', [account'])))"

text \<open>
  \<open>regexp.MustCompile(`(?s)<think>(.*?)</think>`).FindStringSubmatch\<close>: the leftmost
  match starts at the first \<open><think>\<close> and, the group being lazy, ends with the first
  \<open></think>\<close> after it. If no \<open></think>\<close> follows the first \<open><think>\<close>, none follows a
  later one either, and there is no match. The result is the whole match and the group.
\<close>

definition findThinkSubmatch :: "string \<Rightarrow> (string \<times> string) option" where
  "findThinkSubmatch s =
     (case Index s ''<think>'' of
        None \<Rightarrow> None
      | Some p \<Rightarrow>
          (let rest = drop (p + length ''<think>'') s
           in case Index rest ''</think>'' of
                None \<Rightarrow> None
              | Some q \<Rightarrow> Some (''<think>'' @ take q rest @ ''</think>'', take q rest)))"

text \<open>
  The fallback of \<open>handleNormalResponse\<close> on its two locals, \<open>reasoning\<close> and \<open>content\<close>.
\<close>

definition extractThinking :: "string \<Rightarrow> string \<Rightarrow> string \<times> string" where
  "extractThinking reasoning0 content0 =
     (if reasoning0 = [] then
        (case findThinkSubmatch content0 of
           Some (whole, grp) \<Rightarrow> (TrimSpace grp, TrimSpace (ReplaceFirst content0 whole []))
         | None \<Rightarrow> (reasoning0, content0))
      else (reasoning0, content0))"

text \<open>
  What a handler leaves behind: the account as mutated, the \<open>Save\<close> calls on the account
  store, the usage directory, and the warning logged when the usage store fails.
\<close>

record effects =
  accountAfter :: Account
  saved :: "Account list"
  usageAfter :: UsageStore
  warned :: "string option"

definition recordBothSinks ::
  "handlerEnv \<Rightarrow> aggregate \<Rightarrow> Account \<Rightarrow> UsageStore \<Rightarrow> effects" where
  "recordBothSinks env st account store =
     (let (account', saves) =
            recordUsageInline (totalTokens st) (inputTokens st) (outputTokens st) account;
          (err, store') =
            UsageStore_RecordUsage (today env) (AccountID account') (inputTokens st)
              (outputTokens st) store
      in \<lparr>accountAfter = account', saved = saves, usageAfter = store', warned = err\<rparr>)"

definition handleNormalResponse ::
  "handlerEnv \<Rightarrow> string list \<Rightarrow> string \<Rightarrow> Account \<Rightarrow> UsageStore
     \<Rightarrow> ChatCompletionResponse \<times> effects" where
  "handleNormalResponse env body model account store =
     (let st = aggregateLines env body zeroAggregate;
          eff = recordBothSinks env st account store;
          st' = (if totalTokens st = 0
                 then st\<lparr>totalTokens := int (length (content st) div 4),
                         outputTokens := int (length (content st) div 4)\<rparr>
                 else st);
          (reasoning', content') = extractThinking (reasoning st') (content st')
      in (\<lparr>ID_resp = ''chatcmpl-'' @ uuidAt env 0,
           Object_resp = ''chat.completion'',
           Created_resp = unixAt env 0,
           Model_resp = model,
           Choices_resp =
             [\<lparr>Index_choice = 0,
               Message = \<lparr>Role_msg = ''assistant'', Content_msg = JString content',
                          Reasoning_msg = reasoning', Name_msg = [], ToolCalls_msg = [],
                          ToolCallID_msg = []\<rparr>,
               FinishReason_choice = ''stop''\<rparr>],
           Usage_of_resp =
             Some \<lparr>PromptTokens = inputTokens st', CompletionTokens = outputTokens st',
                   TotalTokens_resp = totalTokens st'\<rparr>,
           SystemFingerprint_resp = []\<rparr>,
          eff))"

text \<open>
  Streaming. What is written to the caller: \<open>data: \<close> followed by the encoded chunk and a
  blank line for each chunk, and the final \<open>data: [DONE]\<close>.
\<close>

datatype sse_event = ChunkEvent ChatCompletionChunk | DoneEvent

definition partChunk :: "handlerEnv \<Rightarrow> string \<Rightarrow> nat \<Rightarrow> GooglePart \<Rightarrow> ChatCompletionChunk" where
  "partChunk env model n part =
     \<lparr>ID_chunk = ''chatcmpl-'' @ uuidAt env n,
      Object_chunk = ''chat.completion.chunk'',
      Created_chunk = unixAt env n,
      Model_chunk = model,
      SystemFingerprint_chunk = [],
      Choices_chunk =
        [\<lparr>Index_cc = 0,
          Delta = \<lparr>Role_delta = [], Content_delta = Text part, Reasoning_delta = [],
                   ToolCalls_delta = []\<rparr>,
          FinishReason_cc = None\<rparr>]\<rparr>"

text \<open>The chunks of one event: one per part of the first candidate, numbered from \<open>n\<close>.\<close>

fun partChunks :: "handlerEnv \<Rightarrow> string \<Rightarrow> nat \<Rightarrow> GooglePart list \<Rightarrow> sse_event list" where
  "partChunks env model n [] = []"
| "partChunks env model n (part # rest) =
     ChunkEvent (partChunk env model n part) # partChunks env model (Suc n) rest"

text \<open>
  The scanner loop of \<open>handleStreamResponse\<close>: the state is the usage captured so far and
  the number of chunks written; the result adds the events written.
\<close>

fun streamLines ::
  "handlerEnv \<Rightarrow> string \<Rightarrow> string list \<Rightarrow> aggregate \<Rightarrow> nat \<Rightarrow> aggregate \<times> sse_event list" where
  "streamLines env model [] st n = (st, [])"
| "streamLines env model (line # rest) st n =
     (if \<not> HasPrefix line ''data: '' then streamLines env model rest st n
      else
        (let dataStr = TrimPrefix line ''data: ''
         in if dataStr = ''[DONE]'' then (st, [])
            else case Unmarshal env dataStr of
                   None \<Rightarrow> streamLines env model rest st n
                 | Some googleResp \<Rightarrow>
                     (case Candidates (Response googleResp) of
                        [] \<Rightarrow> streamLines env model rest st n
                      | candidate # _ \<Rightarrow>
                          (let st' = trackUsage googleResp st;
                               parts = Parts_gc (Content_cand candidate);
                               written = partChunks env model n parts;
                               (st'', later) =
                                 streamLines env model rest st' (n + length parts)
                           in (st'', written @ later)))))"

definition handleStreamResponse ::
  "handlerEnv \<Rightarrow> string list \<Rightarrow> string \<Rightarrow> Account \<Rightarrow> UsageStore
     \<Rightarrow> sse_event list \<times> effects" where
  "handleStreamResponse env body model account store =
     (let (st, written) = streamLines env model body zeroAggregate 0;
          eff = recordBothSinks env st account store
      in (written @ [DoneEvent], eff))"

section \<open>Account selection (oauth.Client.GetToken)\<close>

text \<open>
  \<open>Account.NeedsRefresh\<close>. The expiry instant is \<open>Timestamp / 1000\<close> seconds (Go's
  division truncates towards zero) plus \<open>ExpiresIn\<close> seconds as a \<open>time.Duration\<close>, an
  \<open>int64\<close> count of nanoseconds; the test is whether less than 30 minutes remain. The
  arithmetic of \<open>time.Time\<close> itself is taken as exact.
\<close>

definition truncDiv :: "int \<Rightarrow> int \<Rightarrow> int" where
  "truncDiv a b = (if 0 \<le> a then a div b else - ((- a) div b))"

definition NeedsRefresh :: "clock \<Rightarrow> Account \<Rightarrow> bool" where
  "NeedsRefresh t a =
     (if \<not> Enable a \<or> IsInCooldown t a then False
      else if Timestamp a = 0 \<or> ExpiresIn a = 0 then True
      else truncDiv (Timestamp a) 1000 * 1000000000 + int64 (ExpiresIn a * 1000000000)
             - UnixNano t < 30 * 60 * 1000000000)"

text \<open>
  What the OAuth client takes from its surroundings: the result of \<open>AccountStore.List\<close>
  (an error text or the account ids), of \<open>AccountStore.Load\<close> for an id, of the token
  source for an account (an error text or the new token), of \<open>fetchModels\<close> for an access
  token (\<open>None\<close> when it returns an error), and the error of \<open>AccountStore.Save\<close>, if any.
\<close>

record oauthToken =
  AccessToken_tok :: string
  RefreshToken_tok :: string
  ExpiresIn_tok :: int

record oauthEnv =
  listAccounts :: "string + string list"
  loadAccount :: "string \<Rightarrow> string + Account"
  tokenSource :: "Account \<Rightarrow> string + oauthToken"
  fetchModels :: "string \<Rightarrow> (string \<times> Model) list option"
  saveError :: "Account \<Rightarrow> string option"

text \<open>
  \<open>Client.RefreshToken\<close> (OAuth client file, lines 790 to 839): the error returned, if any, the account as mutated, and the
  accounts handed to \<open>Save\<close>. \<open>ExpiresIn_tok\<close> is the new token's remaining life in whole
  seconds, as the code computes it from the expiry.
\<close>

definition Client_RefreshToken ::
  "clock \<Rightarrow> oauthEnv \<Rightarrow> Account \<Rightarrow> go_panic + (string option \<times> Account \<times> Account list)" where
  "Client_RefreshToken t env account =
     (case tokenSource env account of
        Inl err \<Rightarrow>
          (case RecordFailure t err account of
             Inl p \<Rightarrow> Inl p
           | Inr account' \<Rightarrow> Inr (Some err, account', [account']))
      | Inr newToken \<Rightarrow>
          (let a1 = account
                 \<lparr>AccessToken := AccessToken_tok newToken,
                  RefreshToken := (if RefreshToken_tok newToken \<noteq> []
                                   then RefreshToken_tok newToken else RefreshToken account),
                  ExpiresIn := ExpiresIn_tok newToken,
                  Timestamp := UnixMilli t\<rparr>;
               a2 = (case fetchModels env (AccessToken a1) of
                       Some ms \<Rightarrow> a1\<lparr>Models := ms\<rparr>
                     | None \<Rightarrow> a1);
               a3 = RecordSuccess t a2
           in case saveError env a3 of
                None \<Rightarrow> Inr (None, a3, [a3])
              | Some err \<Rightarrow>
                  Inr (Some (''failed to save refreshed account: '' @ err), a3, [a3])))"

datatype tokenError = ListFailed string | NoAccounts | NoUsableAccount

text \<open>The error texts of \<open>GetToken\<close>.\<close>

fun tokenErrorText :: "tokenError \<Rightarrow> string" where
  "tokenErrorText (ListFailed err) = ''failed to list accounts: '' @ err"
| "tokenErrorText NoAccounts = ''no accounts available''"
| "tokenErrorText NoUsableAccount =
     ''no valid accounts available (all disabled, in cooldown, or failed refresh)''"

record tokenResult =
  cursorAfter :: nat
  savedByRefresh :: "Account list"
  selected :: "tokenError + Account"

text \<open>
  One position of the rotation: \<open>None\<close> when the account at that id is skipped, otherwise
  the account returned; with the accounts saved by a refresh.
\<close>

definition tryAccount ::
  "clock \<Rightarrow> oauthEnv \<Rightarrow> string \<Rightarrow> go_panic + (Account option \<times> Account list)" where
  "tryAccount t env accountID =
     (case loadAccount env accountID of
        Inl err \<Rightarrow> Inr (None, [])
      | Inr account \<Rightarrow>
          if \<not> Enable account then Inr (None, [])
          else if IsInCooldown t account then Inr (None, [])
          else if NeedsRefresh t account then
            (case Client_RefreshToken t env account of
               Inl p \<Rightarrow> Inl p
             | Inr (Some err, account', saves) \<Rightarrow> Inr (None, saves)
             | Inr (None, account', saves) \<Rightarrow> Inr (Some account', saves))
          else Inr (Some account, []))"

text \<open>
  The loop of \<open>GetToken\<close> (lines 1045 to 1097) with \<open>k\<close> iterations left; \<open>currentIndex\<close> is the rotation cursor
  of the client, advanced before each load (an \<open>int\<close> that starts at 0 and never gets
  negative, hence a \<open>nat\<close>). All clock readings of one call are taken as
  one reading \<open>t\<close>.
\<close>

fun rotate ::
  "clock \<Rightarrow> oauthEnv \<Rightarrow> string list \<Rightarrow> nat \<Rightarrow> nat \<Rightarrow> Account list \<Rightarrow> go_panic + tokenResult" where
  "rotate t env accountIDs 0 currentIndex saves =
     Inr \<lparr>cursorAfter = currentIndex, savedByRefresh = saves, selected = Inl NoUsableAccount\<rparr>"
| "rotate t env accountIDs (Suc k) currentIndex saves =
     (let currentIndex' = (currentIndex + 1) mod length accountIDs
      in case tryAccount t env (accountIDs ! currentIndex') of
           Inl p \<Rightarrow> Inl p
         | Inr (None, saves') \<Rightarrow> rotate t env accountIDs k currentIndex' (saves @ saves')
         | Inr (Some account, saves') \<Rightarrow>
             Inr \<lparr>cursorAfter = currentIndex', savedByRefresh = saves @ saves',
                  selected = Inr account\<rparr>)"

definition GetToken :: "clock \<Rightarrow> oauthEnv \<Rightarrow> nat \<Rightarrow> go_panic + tokenResult" where
  "GetToken t env currentIndex =
     (case listAccounts env of
        Inl err \<Rightarrow>
          Inr \<lparr>cursorAfter = currentIndex, savedByRefresh = [], selected = Inl (ListFailed err)\<rparr>
      | Inr accountIDs \<Rightarrow>
          if length accountIDs = 0
          then Inr \<lparr>cursorAfter = currentIndex, savedByRefresh = [], selected = Inl NoAccounts\<rparr>
          else rotate t env accountIDs (length accountIDs) currentIndex [])"

section \<open>Proxy orchestration (chatCompletions)\<close>

text \<open>\<open>Server.chatCompletions\<close> of the proxy handler file (lines 81 to 233).\<close>

text \<open>
  What one attempt meets: the result of \<open>GetToken\<close> (a panic, an error or the account),
  the random draws of the translation, whether \<open>json.Marshal\<close> and \<open>http.NewRequest\<close>
  succeed, the result of the round trip for the request sent under the account's bearer
  token (a transport error, or the status and the body read), and the clock reading of
  the attempt.
\<close>

datatype upstream = TransportError string | HTTPResponse int string

record attempt =
  tokenOutcome :: "go_panic + (tokenError + Account)"
  attemptDraws :: draws
  marshalOK :: "GoogleRequest \<Rightarrow> bool"
  newRequestOK :: bool
  roundTrip :: "string \<Rightarrow> GoogleRequest \<Rightarrow> upstream"
  attemptClock :: clock

text \<open>
  How the handler ends: a JSON reply with its status and the entries of its body, the
  hand-over of a 200 response to the streaming or the aggregating handler with the account
  used and the upstream body, or a panic.
\<close>

datatype completion =
    Replied int "(string \<times> json) list"
  | HandedToStream Account string
  | HandedToNormal Account string
  | Panicked go_panic

text \<open>
  One iteration of the retry loop: \<open>Retry\<close> is a \<open>continue\<close> with the new \<open>lastErr\<close>,
  \<open>Finish\<close> a \<open>return\<close>; both carry the accounts saved in the iteration. In the 429
  branch the warning logged first has the argument
  \<open>account.ErrorTracking.RateLimitCount+1\<close> (line 164): on an account without an
  error-tracking block this dereferences \<open>nil\<close> and the handler panics before anything is
  recorded.
\<close>

datatype step = Retry string "Account list" | Finish completion "Account list"

definition attemptStep :: "ChatCompletionRequest \<Rightarrow> attempt \<Rightarrow> step" where
  "attemptStep req a =
     (case tokenOutcome a of
        Inl p \<Rightarrow> Finish (Panicked p) []
      | Inr (Inl err) \<Rightarrow> Retry (tokenErrorText err) []
      | Inr (Inr account) \<Rightarrow>
          (let googleReq = transformRequest (attemptDraws a) req
           in if \<not> marshalOK a googleReq
              then Finish (Replied 500 [(''error'', JString ''Failed to marshal request'')]) []
              else if \<not> newRequestOK a
              then Finish (Replied 500 [(''error'', JString ''Failed to create request'')]) []
              else
                (case roundTrip a (''Bearer '' @ AccessToken account) googleReq of
                   TransportError err \<Rightarrow>
                     (case RecordFailure (attemptClock a) err account of
                        Inl p \<Rightarrow> Finish (Panicked p) []
                      | Inr account' \<Rightarrow> Retry err [account'])
                 | HTTPResponse status body \<Rightarrow>
                     if status \<noteq> 200 then
                       (if status = 429 then
                          (case ErrorTracking account of
                             None \<Rightarrow> Finish (Panicked NilDereference) []
                           | Some e \<Rightarrow>
                               Retry ''rate limit exceeded''
                                 [RecordRateLimit (attemptClock a) account])
                        else if status = 403 then
                          Retry ''permission denied''
                            [RecordPermissionDenied (attemptClock a) account]
                        else
                          (case RecordFailure (attemptClock a)
                                  (''HTTP '' @ Itoa status @ '': '' @ body) account of
                             Inl p \<Rightarrow> Finish (Panicked p) []
                           | Inr account' \<Rightarrow>
                               if status \<ge> 400 \<and> status < 500
                               then Finish (Replied status
                                      [(''error'', JString ''Upstream API error''),
                                       (''details'', JString body)]) [account']
                               else Retry (''HTTP '' @ Itoa status @ '': '' @ body) [account']))
                     else
                       (let account' = RecordSuccess (attemptClock a) account
                        in if Stream req then Finish (HandedToStream account' body) [account']
                           else Finish (HandedToNormal account' body) [account']))))"

text \<open>
  The loop with \<open>k\<close> attempts left; \<open>attempt\<close> is the loop counter and \<open>lastErr\<close> the last
  error, \<open>None\<close> for \<open>nil\<close>. The pause before a retry after a failed \<open>GetToken\<close> is not
  part of the model.
\<close>

fun attemptLoop ::
  "(nat \<Rightarrow> attempt) \<Rightarrow> ChatCompletionRequest \<Rightarrow> nat \<Rightarrow> nat \<Rightarrow> string option
     \<Rightarrow> completion \<times> Account list" where
  "attemptLoop env req attemptNo 0 lastErr =
     (case lastErr of
        None \<Rightarrow> (Panicked NilDereference, [])
      | Some err \<Rightarrow>
          (Replied 503
             [(''error'', JString ''Service unavailable after retries''),
              (''details'', JString err),
              (''retries'', JNumber 5)], []))"
| "attemptLoop env req attemptNo (Suc k) lastErr =
     (case attemptStep req (env attemptNo) of
        Retry err saves \<Rightarrow>
          (let (c, later) = attemptLoop env req (attemptNo + 1) k (Some err)
           in (c, saves @ later))
      | Finish c saves \<Rightarrow> (c, saves))"

definition maxRetries :: nat where
  "maxRetries = 5"

text \<open>
  \<open>chatCompletions\<close>; \<open>bound\<close> is the result of \<open>ShouldBindJSON\<close>, an error text or the
  request.
\<close>

definition chatCompletions ::
  "(nat \<Rightarrow> attempt) \<Rightarrow> string + ChatCompletionRequest \<Rightarrow> completion \<times> Account list" where
  "chatCompletions env bound =
     (case bound of
        Inl err \<Rightarrow> (Replied 400 [(''error'', JString (''Invalid request: '' @ err))], [])
      | Inr req \<Rightarrow> attemptLoop env req 0 maxRetries None)"

section \<open>Properties stated by the specification\<close>

text \<open>
  The usage invariant of an account, read in Go's arithmetic: the total equals the
  \<open>int64\<close> sum of input and output. An account without a usage block has nothing to
  violate.
\<close>

definition usageInvariant :: "Account \<Rightarrow> bool" where
  "usageInvariant a =
     (case Usage a of
        None \<Rightarrow> True
      | Some u \<Rightarrow> TotalTokens u = int64 (InputTokens u + OutputTokens u))"

text \<open>
  The parts of the upstream events in the words of the specification: of every data line
  before the \<open>[DONE]\<close> sentinel that decodes and has a candidate, the parts of its first
  candidate, in order.
\<close>

fun upstreamParts :: "handlerEnv \<Rightarrow> string list \<Rightarrow> GooglePart list" where
  "upstreamParts env [] = []"
| "upstreamParts env (line # rest) =
     (if \<not> HasPrefix line ''data: '' then upstreamParts env rest
      else if TrimPrefix line ''data: '' = ''[DONE]'' then []
      else case Unmarshal env (TrimPrefix line ''data: '') of
             None \<Rightarrow> upstreamParts env rest
           | Some googleResp \<Rightarrow>
               (case Candidates (Response googleResp) of
                  [] \<Rightarrow> upstreamParts env rest
                | candidate # _ \<Rightarrow> Parts_gc (Content_cand candidate) @ upstreamParts env rest))"

text \<open>
  An attempt reaches the upstream: \<open>GetToken\<close> gave the account, the request was encoded
  and built, and the round trip for it ended with the outcome \<open>up\<close>.
\<close>

definition upstreamOutcome ::
  "ChatCompletionRequest \<Rightarrow> attempt \<Rightarrow> Account \<Rightarrow> upstream \<Rightarrow> bool" where
  "upstreamOutcome req a account up \<longleftrightarrow>
     tokenOutcome a = Inr (Inr account) \<and>
     marshalOK a (transformRequest (attemptDraws a) req) \<and>
     newRequestOK a \<and>
     roundTrip a (''Bearer '' @ AccessToken account) (transformRequest (attemptDraws a) req) = up"

section \<open>Sequences of events and concrete inputs\<close>

text \<open>
  Consecutive generic failures recorded on one account, each with the clock reading and
  the error text of its call; a panic ends the sequence.
\<close>

fun recordFailures :: "(clock \<times> string) list \<Rightarrow> Account \<Rightarrow> go_panic + Account" where
  "recordFailures [] a = Inr a"
| "recordFailures ((t, err) # rest) a =
     (case RecordFailure t err a of Inl p \<Rightarrow> Inl p | Inr a' \<Rightarrow> recordFailures rest a')"

text \<open>A clock reading at a whole second.\<close>

definition clockAt :: "int \<Rightarrow> clock" where
  "clockAt s = \<lparr>Unix = s, UnixMilli = s * 1000, UnixNano = s * 1000000000\<rparr>"

text \<open>
  The first \<open>k\<close> failures of an account whose token refresh fails each time it is tried
  again, once every 3601 seconds from second 1700000000.
\<close>

definition hourlyFailures :: "nat \<Rightarrow> (clock \<times> string) list" where
  "hourlyFailures k =
     map (\<lambda>i. (clockAt (1700000000 + 3601 * int i), ''oauth2: cannot fetch token''))
       [0..<k]"

text \<open>An account as the OAuth callback creates it.\<close>

definition newAccount :: "string \<Rightarrow> Account" where
  "newAccount ident =
     \<lparr>AccountID = ident, Email = ''a@example.com'', Name = ''a'',
      AccessToken = ''tok'', RefreshToken = ''ref'', ExpiresIn = 3599,
      Timestamp = 1700000000000, Enable = True, Models = [], LastRefresh = 1700000000000,
      RefreshStatus = ''success'', Usage = Some zeroUsageStats,
      ErrorTracking = Some (zeroErrorTracking\<lparr>ConsecutiveFailures := 0\<rparr>)\<rparr>"

definition userMessage :: "string \<Rightarrow> ChatCompletionMessage" where
  "userMessage text =
     \<lparr>Role_msg = ''user'', Content_msg = JString text, Reasoning_msg = [], Name_msg = [],
      ToolCalls_msg = [], ToolCallID_msg = []\<rparr>"

definition simpleRequest :: "string \<Rightarrow> bool \<Rightarrow> ChatCompletionRequest" where
  "simpleRequest modelName streaming =
     \<lparr>Model_req = modelName, Messages = [userMessage ''hi''], Stream = streaming,
      MaxTokens = 0, Temperature = 0, TopP = 0, TopK = 0, Tools = [], ToolChoice = JNull,
      FrequencyPenalty = 0, PresencePenalty = 0\<rparr>"

definition someDraws :: draws where
  "someDraws =
     \<lparr>adjDraw = 0, nounDraw = 1, numDraw = 41023,
      uuidDraw = ''123e4567-e89b-42d3-a456-426614174000'', sessionDraw = 77\<rparr>"

text \<open>
  Three upstream SSE lines and the values \<open>json.Unmarshal\<close> decodes from them: a text part
  with usage metadata whose total also counts thinking tokens, a function-call part, and a
  thought part followed by an answer part.
\<close>

definition textLine :: string where
  \<open>textLine = ''data: {"response":{"candidates":[{"content":{"role":"model","parts":[{"text":"Hello"}]}}],"usageMetadata":{"promptTokenCount":1,"candidatesTokenCount":2,"totalTokenCount":10}}}''\<close>

definition textEvent :: GoogleResponse where
  "textEvent =
     \<lparr>Response =
        \<lparr>Candidates =
           [\<lparr>Content_cand = \<lparr>Role_gc = ''model'', Parts_gc = [textPart ''Hello'']\<rparr>,
             FinishReason_cand = []\<rparr>],
         UsageMetadata =
           Some \<lparr>PromptTokenCount = 1, CandidatesTokenCount = 2, TotalTokenCount = 10\<rparr>\<rparr>\<rparr>"

definition toolLine :: string where
  \<open>toolLine = ''data: {"response":{"candidates":[{"content":{"role":"model","parts":[{"functionCall":{"id":"call_1","name":"get_time","args":{"zone":"UTC"}}}]},"finishReason":"STOP"}]}}''\<close>

definition toolPart :: GooglePart where
  "toolPart =
     zeroPart\<lparr>FunctionCall :=
       Some \<lparr>ID_fc = ''call_1'', Name_fc = ''get_time'', Args = [(''zone'', JString ''UTC'')]\<rparr>\<rparr>"

definition toolEvent :: GoogleResponse where
  "toolEvent =
     \<lparr>Response =
        \<lparr>Candidates =
           [\<lparr>Content_cand = \<lparr>Role_gc = ''model'', Parts_gc = [toolPart]\<rparr>,
             FinishReason_cand = ''STOP''\<rparr>],
         UsageMetadata = None\<rparr>\<rparr>"

definition thoughtLine :: string where
  \<open>thoughtLine = ''data: {"response":{"candidates":[{"content":{"role":"model","parts":[{"text":"plan","thought":true},{"text":"answer"}]}}]}}''\<close>

definition thoughtEvent :: GoogleResponse where
  "thoughtEvent =
     \<lparr>Response =
        \<lparr>Candidates =
           [\<lparr>Content_cand =
               \<lparr>Role_gc = ''model'',
                Parts_gc = [(textPart ''plan'')\<lparr>Thought := True\<rparr>, textPart ''answer'']\<rparr>,
             FinishReason_cand = []\<rparr>],
         UsageMetadata = None\<rparr>\<rparr>"

definition answerLine :: string where
  \<open>answerLine = ''data: {"response":{"candidates":[{"content":{"role":"model","parts":[{"text":"42"}]}}],"usageMetadata":{"promptTokenCount":3,"candidatesTokenCount":4,"totalTokenCount":7}}}''\<close>

definition answerEvent :: GoogleResponse where
  "answerEvent =
     \<lparr>Response =
        \<lparr>Candidates =
           [\<lparr>Content_cand = \<lparr>Role_gc = ''model'', Parts_gc = [textPart ''42'']\<rparr>,
             FinishReason_cand = []\<rparr>],
         UsageMetadata =
           Some \<lparr>PromptTokenCount = 3, CandidatesTokenCount = 4, TotalTokenCount = 7\<rparr>\<rparr>\<rparr>"

definition doneLine :: string where
  "doneLine = ''data: [DONE]''"

definition scenarioEnv :: handlerEnv where
  "scenarioEnv =
     \<lparr>Unmarshal = (\<lambda>s. if s = drop 6 textLine then Some textEvent
                       else if s = drop 6 toolLine then Some toolEvent
                       else if s = drop 6 thoughtLine then Some thoughtEvent
                       else if s = drop 6 answerLine then Some answerEvent
                       else None),
      uuidAt = (\<lambda>n. ''123e4567-e89b-42d3-a456-426614174000''),
      unixAt = (\<lambda>n. 1700000000),
      today = ''2023-11-14''\<rparr>"

definition emptyUsageStore :: UsageStore where
  "emptyUsageStore = \<lparr>mkdirAllOK = True, writeFileOK = True, files = (\<lambda>name. None)\<rparr>"

text \<open>
  Three account stores for \<open>GetToken\<close>: one with a disabled and a usable account, an empty
  one, and one with a disabled account and an account in cooldown. No refresh succeeds.
\<close>

definition cooledAccount :: "string \<Rightarrow> Account" where
  "cooledAccount ident =
     (newAccount ident)\<lparr>ErrorTracking := Some (zeroErrorTracking\<lparr>FailedUntil := Some 1700003600\<rparr>)\<rparr>"

definition poolEnv :: oauthEnv where
  "poolEnv =
     \<lparr>listAccounts = Inr [''acc1'', ''acc2''],
      loadAccount = (\<lambda>ident. if ident = ''acc1'' then Inr ((newAccount ''acc1'')\<lparr>Enable := False\<rparr>)
                              else if ident = ''acc2'' then Inr (newAccount ''acc2'')
                              else Inl ''no such file''),
      tokenSource = (\<lambda>a. Inl ''invalid_grant''),
      fetchModels = (\<lambda>tok. None),
      saveError = (\<lambda>a. None)\<rparr>"

definition emptyPoolEnv :: oauthEnv where
  "emptyPoolEnv = poolEnv\<lparr>listAccounts := Inr []\<rparr>"

definition cooledPoolEnv :: oauthEnv where
  "cooledPoolEnv =
     poolEnv\<lparr>loadAccount :=
       (\<lambda>ident. if ident = ''acc1'' then Inr ((newAccount ''acc1'')\<lparr>Enable := False\<rparr>)
                 else if ident = ''acc2'' then Inr (cooledAccount ''acc2'')
                 else Inl ''no such file'')\<rparr>"

text \<open>Attempts of the orchestrator: an account and what the upstream answers.\<close>

definition attemptWith :: "string \<Rightarrow> upstream \<Rightarrow> attempt" where
  "attemptWith ident up =
     \<lparr>tokenOutcome = Inr (Inr (newAccount ident)),
      attemptDraws = someDraws,
      marshalOK = (\<lambda>r. True),
      newRequestOK = True,
      roundTrip = (\<lambda>bearer r. up),
      attemptClock = clockAt 1700000000\<rparr>"

definition rotatingAttempts :: "nat \<Rightarrow> attempt" where
  "rotatingAttempts n =
     (if n = 0 then attemptWith ''acc1'' (HTTPResponse 429 ''quota'')
      else attemptWith ''acc2'' (HTTPResponse 200 textLine))"

definition failingAttempts :: "nat \<Rightarrow> attempt" where
  "failingAttempts n =
     (if n < 4 then attemptWith (''acc'' @ Itoa (int n + 1)) (HTTPResponse 500 ''boom'')
      else attemptWith ''acc5'' (TransportError ''dial tcp: timeout''))"

text \<open>
  An account as the tests of the OAuth client store it (\<open>createTestAccount\<close>): neither a
  usage nor an error-tracking block. A store that holds this account alone, and an attempt
  that takes its account from \<open>GetToken\<close> on that store and meets a 429.
\<close>

definition bareAccount :: "string \<Rightarrow> Account" where
  "bareAccount ident =
     \<lparr>AccountID = ident, Email = ident @ ''@example.com'', Name = [],
      AccessToken = ''valid_token'', RefreshToken = [], ExpiresIn = 3600,
      Timestamp = 1700000000000, Enable = True, Models = [], LastRefresh = 0,
      RefreshStatus = [], Usage = None, ErrorTracking = None\<rparr>"

definition barePoolEnv :: oauthEnv where
  "barePoolEnv =
     \<lparr>listAccounts = Inr [''acc1''],
      loadAccount = (\<lambda>ident. if ident = ''acc1'' then Inr (bareAccount ''acc1'')
                              else Inl ''no such file''),
      tokenSource = (\<lambda>a. Inl ''invalid_grant''),
      fetchModels = (\<lambda>tok. None),
      saveError = (\<lambda>a. None)\<rparr>"

definition bareAttempt :: attempt where
  "bareAttempt =
     \<lparr>tokenOutcome = (case GetToken (clockAt 1700000000) barePoolEnv 0 of
                         Inl p \<Rightarrow> Inl p
                       | Inr r \<Rightarrow> Inr (selected r)),
      attemptDraws = someDraws,
      marshalOK = (\<lambda>r. True),
      newRequestOK = True,
      roundTrip = (\<lambda>bearer r. HTTPResponse 429 ''quota''),
      attemptClock = clockAt 1700000000\<rparr>"

definition scenarioRequest :: ChatCompletionRequest where
  "scenarioRequest = simpleRequest ''gemini-2.0-flash'' False"

text \<open>A new account after its first generic failure, recorded at second 1700000000.\<close>

definition failedOnce :: "string \<Rightarrow> string \<Rightarrow> Account" where
  "failedOnce ident err =
     (newAccount ident)
       \<lparr>RefreshStatus := ''failed'',
        ErrorTracking := Some (zeroErrorTracking
          \<lparr>ConsecutiveFailures := 1, LastError := err, LastErrorTime := Some 1700000000,
           FailedUntil := Some 1700000002\<rparr>)\<rparr>"

section \<open>Arithmetic of \<open>int64\<close>\<close>

lemma int64_id: "- (2 ^ 63) \<le> x \<Longrightarrow> x < 2 ^ 63 \<Longrightarrow> int64 x = x"
  by (simp add: int64_def)

lemma int64_small: "0 \<le> x \<Longrightarrow> x < 2 ^ 62 \<Longrightarrow> int64 x = x"
  by (simp add: int64_def)

lemma pow2_less_63: "k < 63 \<Longrightarrow> (2::int) ^ k < 2 ^ 63"
  by (rule power_strict_increasing) simp_all

lemma int64_pow2: 
  assumes k: "k < 63"
  shows "int64 (2 ^ k) = 2 ^ k"
proof -
  have lo: "- (2 ^ 63) \<le> (2::int) ^ k"
    by (rule order_trans [of _ 0]) simp_all
  show ?thesis by (rule int64_id [OF lo pow2_less_63 [OF k]])
qed

section \<open>Rate-limit backoff\<close>

lemma errorTrackingOrZero_RecordRateLimit:
  "errorTrackingOrZero (RecordRateLimit t a) =
     (let e = errorTrackingOrZero a;
          doubled = (if RateLimitBackoff e > 0 then int64 (RateLimitBackoff e * 2) else 120);
          backoffSeconds = (if doubled > 1800 then 1800 else doubled)
      in e\<lparr>RateLimitCount := int64 (RateLimitCount e + 1),
           LastError := ''HTTP 429: Rate Limit Exceeded'',
           LastErrorTime := Some (Unix t),
           RateLimitBackoff := backoffSeconds,
           FailedUntil := Some (int64 (Unix t + backoffSeconds))\<rparr>)"
  by (simp add: RecordRateLimit_def errorTrackingOrZero_def Let_def)

lemma failedUntil_RecordRateLimit:
  "FailedUntil (errorTrackingOrZero (RecordRateLimit t a)) =
     Some (int64 (Unix t + RateLimitBackoff (errorTrackingOrZero (RecordRateLimit t a))))"
  by (simp add: errorTrackingOrZero_RecordRateLimit Let_def)

lemma backoff_first:
  assumes "RateLimitBackoff (errorTrackingOrZero a) = 0"
  shows "RateLimitBackoff (errorTrackingOrZero (RecordRateLimit t a)) = 120"
  using assms by (simp add: errorTrackingOrZero_RecordRateLimit Let_def)

lemma backoff_step:
  assumes "0 < b" "b \<le> 1800" "RateLimitBackoff (errorTrackingOrZero a) = b"
  shows "RateLimitBackoff (errorTrackingOrZero (RecordRateLimit t a)) = min (2 * b) 1800"
  using assms by (simp add: errorTrackingOrZero_RecordRateLimit Let_def int64_id)

lemma backoff_fold:
  assumes "RateLimitBackoff (errorTrackingOrZero a) = 0"
  shows "RateLimitBackoff (errorTrackingOrZero (fold RecordRateLimit ts a)) =
         (if ts = [] then 0 else min (120 * 2 ^ (length ts - 1)) 1800)"
proof (induction ts rule: rev_induct)
  case Nil
  then show ?case using assms by simp
next
  case (snoc t ts)
  show ?case
  proof (cases "ts = []")
    case True
    then show ?thesis using assms by (simp add: backoff_first)
  next
    case False
    let ?b = "min (120 * 2 ^ (length ts - 1)) (1800::int)"
    have b: "RateLimitBackoff (errorTrackingOrZero (fold RecordRateLimit ts a)) = ?b"
      using snoc False by simp
    have pos: "0 < ?b" by simp
    have le: "?b \<le> 1800" by simp
    have "RateLimitBackoff (errorTrackingOrZero (RecordRateLimit t (fold RecordRateLimit ts a)))
          = min (2 * ?b) 1800"
      by (rule backoff_step [OF pos le b])
    moreover have "min (2 * ?b) 1800 = min (120 * 2 ^ length ts) (1800::int)"
    proof -
      from False obtain n where n: "length ts = Suc n" by (cases ts) auto
      show ?thesis by (simp add: n min_def)
    qed
    ultimately show ?thesis by simp
  qed
qed

lemma RecordSuccess_resets:
  "RateLimitBackoff (errorTrackingOrZero (RecordSuccess t a)) = 0 \<and>
   RateLimitCount (errorTrackingOrZero (RecordSuccess t a)) = 0 \<and>
   ConsecutiveFailures (errorTrackingOrZero (RecordSuccess t a)) = 0 \<and>
   FailedUntil (errorTrackingOrZero (RecordSuccess t a)) = None"
  by (simp add: RecordSuccess_def errorTrackingOrZero_def)

text \<open>
  Claim C6. On an account whose rate-limit backoff is 0 (a new account, or one whose last
  recorded event is a success), the first recorded 429 sets the backoff to 120 seconds and
  every further 429 in a row doubles it up to the cap of 1800 seconds: after \<open>n + 1\<close>
  of them the backoff is \<open>min (120 * 2 ^ n) 1800\<close>, and \<open>failed_until\<close> is the clock reading
  of the last one plus that backoff (as an \<open>int64\<close> sum). Recording a success sets both the
  backoff and the rate-limit count to 0.
\<close>

theorem rate_limit_backoff_law:
  "RateLimitBackoff (errorTrackingOrZero (RecordSuccess t0 a)) = 0 \<and>
   RateLimitCount (errorTrackingOrZero (RecordSuccess t0 a)) = 0 \<and>
   (RateLimitBackoff (errorTrackingOrZero b) = 0 \<longrightarrow>
      RateLimitBackoff (errorTrackingOrZero (fold RecordRateLimit (ts @ [t]) b))
        = min (120 * 2 ^ length ts) 1800 \<and>
      FailedUntil (errorTrackingOrZero (fold RecordRateLimit (ts @ [t]) b))
        = Some (int64 (Unix t + min (120 * 2 ^ length ts) 1800)))"
proof (intro conjI impI)
  assume z: "RateLimitBackoff (errorTrackingOrZero b) = 0"
  show k: "RateLimitBackoff (errorTrackingOrZero (fold RecordRateLimit (ts @ [t]) b))
        = min (120 * 2 ^ length ts) 1800"
    using backoff_fold [OF z, of "ts @ [t]"] by simp
  have "FailedUntil (errorTrackingOrZero (fold RecordRateLimit (ts @ [t]) b)) =
        Some (int64 (Unix t +
          RateLimitBackoff (errorTrackingOrZero (fold RecordRateLimit (ts @ [t]) b))))"
    by (simp add: failedUntil_RecordRateLimit)
  then show "FailedUntil (errorTrackingOrZero (fold RecordRateLimit (ts @ [t]) b))
        = Some (int64 (Unix t + min (120 * 2 ^ length ts) 1800))"
    by (simp only: k)
qed (simp_all add: RecordSuccess_resets)

theorem rate_limit_backoff_law_witness:
  "RateLimitBackoff (errorTrackingOrZero (newAccount ''acc1'')) = 0 \<and>
   RateLimitBackoff (errorTrackingOrZero
     (fold RecordRateLimit [clockAt 1700000000, clockAt 1700000200, clockAt 1700000500]
        (newAccount ''acc1''))) = 480 \<and>
   FailedUntil (errorTrackingOrZero
     (fold RecordRateLimit [clockAt 1700000000, clockAt 1700000200, clockAt 1700000500]
        (newAccount ''acc1''))) = Some 1700000980"
proof -
  have z: "RateLimitBackoff (errorTrackingOrZero (newAccount ''acc1'')) = 0"
    by (simp add: newAccount_def errorTrackingOrZero_def zeroErrorTracking_def)
  have v: "int64 (Unix (clockAt 1700000500) + min (120 * 2 ^ length [clockAt 1700000000, clockAt 1700000200]) 1800)
           = 1700000980"
    by (simp add: int64_def clockAt_def)
  show ?thesis
    using z v rate_limit_backoff_law
      [of "clockAt 0" "newAccount ''acc1''" "newAccount ''acc1''"
          "[clockAt 1700000000, clockAt 1700000200]" "clockAt 1700000500"]
    by simp
qed

section \<open>Cooldown after generic failures\<close>

lemma RecordFailure_step:
  assumes "ConsecutiveFailures (errorTrackingOrZero a) = int k" "k < 62"
  shows "\<exists>a'. RecordFailure t err a = Inr a' \<and>
           ConsecutiveFailures (errorTrackingOrZero a') = int (Suc k) \<and>
           FailedUntil (errorTrackingOrZero a') = Some (int64 (Unix t + min (2 ^ Suc k) 3600))"
proof -
  have r: "int64 (int k + 1) = int k + 1"
    using assms(2) by (intro int64_small) simp_all
  have s: "int64 (2 ^ Suc k) = 2 ^ Suc k"
    using assms(2) by (intro int64_pow2) simp
  have n: "nat (int k + 1) = Suc k" by simp
  show ?thesis
    using assms(1) s
    by (simp add: RecordFailure_def shl1_int64_def Let_def r n errorTrackingOrZero_def min_def
        del: power_Suc)
qed

lemma RecordFailure_step_63:
  assumes "ConsecutiveFailures (errorTrackingOrZero a) = 62"
  shows "\<exists>a'. RecordFailure t err a = Inr a' \<and>
           ConsecutiveFailures (errorTrackingOrZero a') = 63 \<and>
           FailedUntil (errorTrackingOrZero a') = Some (int64 (Unix t - 2 ^ 63))"
  using assms
  by (simp add: RecordFailure_def shl1_int64_def Let_def errorTrackingOrZero_def int64_def)

lemma recordFailures_snoc:
  "recordFailures (xs @ [(t, err)]) a =
     (case recordFailures xs a of Inl p \<Rightarrow> Inl p | Inr a' \<Rightarrow> RecordFailure t err a')"
  by (induction xs arbitrary: a) (auto split: sum.splits)

text \<open>
  Up to 62 consecutive failures the cooldown is the documented one: after the \<open>k\<close>-th
  failure \<open>failed_until\<close> is the clock reading plus \<open>min (2 ^ k) 3600\<close>.
\<close>

lemma recordFailures_chain:
  assumes z: "ConsecutiveFailures (errorTrackingOrZero a) = 0"
  shows "length ts \<le> 62 \<Longrightarrow>
         (\<exists>a'. recordFailures ts a = Inr a' \<and>
            ConsecutiveFailures (errorTrackingOrZero a') = int (length ts) \<and>
            (ts \<noteq> [] \<longrightarrow> FailedUntil (errorTrackingOrZero a') =
               Some (int64 (Unix (fst (last ts)) + min (2 ^ length ts) 3600))))"
proof (induction ts rule: rev_induct)
  case Nil
  then show ?case using z by simp
next
  case (snoc x ts)
  obtain t err where x: "x = (t, err)" by (cases x)
  from snoc.prems have len: "length ts < 62" by simp
  with snoc.IH obtain a1 where a1: "recordFailures ts a = Inr a1"
    "ConsecutiveFailures (errorTrackingOrZero a1) = int (length ts)" by auto
  from RecordFailure_step [OF a1(2) len, of t err] obtain a2 where
    a2: "RecordFailure t err a1 = Inr a2"
        "ConsecutiveFailures (errorTrackingOrZero a2) = int (Suc (length ts))"
        "FailedUntil (errorTrackingOrZero a2) =
           Some (int64 (Unix t + min (2 ^ Suc (length ts)) 3600))"
    by blast
  show ?case
    using a1(1) a2 by (simp add: x recordFailures_snoc del: power_Suc)
qed

lemma recordFailures_63:
  assumes z: "ConsecutiveFailures (errorTrackingOrZero a) = 0" and l: "length ts = 62"
  shows "\<exists>a'. recordFailures (ts @ [(t, err)]) a = Inr a' \<and>
           FailedUntil (errorTrackingOrZero a') = Some (int64 (Unix t - 2 ^ 63))"
proof -
  from recordFailures_chain [OF z, of ts] l obtain a1 where
    a1: "recordFailures ts a = Inr a1" "ConsecutiveFailures (errorTrackingOrZero a1) = 62"
    by auto
  from RecordFailure_step_63 [OF a1(2), of t err] obtain a2 where
    "RecordFailure t err a1 = Inr a2"
    "FailedUntil (errorTrackingOrZero a2) = Some (int64 (Unix t - 2 ^ 63))" by blast
  then show ?thesis using a1(1) by (simp add: recordFailures_snoc)
qed

text \<open>
  Claim C7, at the input where the code departs from it. An account fails once every 3601
  seconds. Its 63rd consecutive failure, at second 1700223262, shifts \<open>int64(1)\<close> by 63:
  the cooldown is \<open>- 2 ^ 63\<close> seconds instead of 3600, \<open>failed_until\<close> lies in the far
  past and the account is not in cooldown at all.
\<close>

theorem cooldown_overflows_at_63rd_failure:
  "\<exists>a'. recordFailures (hourlyFailures 63) (newAccount ''acc1'') = Inr a' \<and>
        FailedUntil (errorTrackingOrZero a') = Some (1700223262 - 2 ^ 63) \<and>
        \<not> IsInCooldown (clockAt 1700223262) a'"
proof -
  let ?x = "(clockAt 1700223262, ''oauth2: cannot fetch token'')"
  have z: "ConsecutiveFailures (errorTrackingOrZero (newAccount ''acc1'')) = 0"
    by (simp add: newAccount_def errorTrackingOrZero_def zeroErrorTracking_def)
  have r: "hourlyFailures 63 = hourlyFailures 62 @ [?x]"
  proof -
    have u: "[0..<63] = [0..<62] @ [62::nat]"
      using upt_Suc_append [of 0 62] by simp
    have c: "clockAt (1700000000 + 3601 * int 62) = clockAt 1700223262"
      by simp
    show ?thesis
      by (simp only: hourlyFailures_def u map_append list.map c)
  qed
  have l: "length (hourlyFailures 62) = 62"
    by (simp add: hourlyFailures_def)
  from recordFailures_63 [OF z l, of "clockAt 1700223262" "''oauth2: cannot fetch token''"]
  obtain a' where a': "recordFailures (hourlyFailures 63) (newAccount ''acc1'') = Inr a'"
     "FailedUntil (errorTrackingOrZero a') = Some (int64 (Unix (clockAt 1700223262) - 2 ^ 63))"
    unfolding r by auto
  have v: "int64 (Unix (clockAt 1700223262) - 2 ^ 63) = 1700223262 - 2 ^ 63"
    by (simp add: int64_def clockAt_def)
  have "\<not> IsInCooldown (clockAt 1700223262) a'"
    using a'(2) v
    by (auto simp: IsInCooldown_def errorTrackingOrZero_def clockAt_def split: option.splits)
  then show ?thesis using a' v by auto
qed

section \<open>Request translation\<close>

lemma TrimSuffix_append:
  assumes "HasSuffix s p"
  shows "TrimSuffix s p @ p = s"
proof -
  from assms obtain zs where "s = zs @ p" by (auto simp: HasSuffix_def suffix_def)
  then show ?thesis using assms by (simp add: TrimSuffix_def)
qed

lemma generationConfig_transformRequest:
  "GenerationConfig (Request (transformRequest d req)) = buildGenerationConfig req"
  by (simp add: transformRequest_def Let_def)

lemma thinkingConfig_enabled:
  assumes "enableThinking (Model_req req)"
  shows "ThinkingConfig (buildGenerationConfig req) =
           Some \<lparr>IncludeThoughts = True, ThinkingBudget = 8192, ThinkingLevel = []\<rparr>"
  using assms by (simp add: buildGenerationConfig_def Let_def)

lemma maxOutputTokens_enabled:
  assumes "enableThinking (Model_req req)"
  shows "MaxOutputTokens (buildGenerationConfig req) =
           Some (if MaxTokens req \<le> 8192 then 12288 else MaxTokens req)"
  using assms by (simp add: buildGenerationConfig_def Let_def)

text \<open>
  Claim C8. When the requested model name ends with \<open>-thinking\<close>, the vendor model name
  is the requested one without that suffix and thinking is enabled. Whenever thinking is
  enabled, the generation config carries \<open>include_thoughts = true\<close> and
  \<open>thinking_budget = 8192\<close>, and a caller's \<open>max_tokens\<close> that is absent (0) or at most 8192
  gives \<open>max_output_tokens = 12288\<close>.
\<close>

theorem thinking_suffix_config:
  "(HasSuffix (Model_req req) ''-thinking'' \<longrightarrow>
      Model_g (transformRequest d req) @ ''-thinking'' = Model_req req \<and>
      enableThinking (Model_req req)) \<and>
   (enableThinking (Model_req req) \<longrightarrow>
      ThinkingConfig (GenerationConfig (Request (transformRequest d req))) =
        Some \<lparr>IncludeThoughts = True, ThinkingBudget = 8192, ThinkingLevel = []\<rparr> \<and>
      (MaxTokens req = 0 \<or> MaxTokens req \<le> 8192 \<longrightarrow>
         MaxOutputTokens (GenerationConfig (Request (transformRequest d req))) = Some 12288))"
proof (intro conjI impI)
  assume s: "HasSuffix (Model_req req) ''-thinking''"
  show "Model_g (transformRequest d req) @ ''-thinking'' = Model_req req"
    using TrimSuffix_append [OF s] s by (simp add: transformRequest_def Let_def vendorModelName_def)
  show "enableThinking (Model_req req)" using s by (simp add: enableThinking_def)
next
  assume e: "enableThinking (Model_req req)"
  show "ThinkingConfig (GenerationConfig (Request (transformRequest d req))) =
        Some \<lparr>IncludeThoughts = True, ThinkingBudget = 8192, ThinkingLevel = []\<rparr>"
    by (simp only: generationConfig_transformRequest thinkingConfig_enabled [OF e])
  assume "MaxTokens req = 0 \<or> MaxTokens req \<le> 8192"
  then show "MaxOutputTokens (GenerationConfig (Request (transformRequest d req))) = Some 12288"
    by (auto simp: generationConfig_transformRequest maxOutputTokens_enabled [OF e])
qed

theorem thinking_suffix_config_witness:
  "HasSuffix (Model_req (simpleRequest ''gemini-2.0-flash-thinking'' False)) ''-thinking'' \<and>
   enableThinking (Model_req (simpleRequest ''gemini-2.0-flash-thinking'' False)) \<and>
   MaxTokens (simpleRequest ''gemini-2.0-flash-thinking'' False) = 0 \<and>
   Model_g (transformRequest someDraws (simpleRequest ''gemini-2.0-flash-thinking'' False))
     = ''gemini-2.0-flash'' \<and>
   MaxOutputTokens (GenerationConfig (Request
     (transformRequest someDraws (simpleRequest ''gemini-2.0-flash-thinking'' False))))
     = Some 12288"
proof -
  have s: "HasSuffix (Model_req (simpleRequest ''gemini-2.0-flash-thinking'' False)) ''-thinking''"
    by (simp add: simpleRequest_def HasSuffix_def suffix_def)
  have m: "MaxTokens (simpleRequest ''gemini-2.0-flash-thinking'' False) = 0"
    by (simp add: simpleRequest_def)
  have n: "Model_req (simpleRequest ''gemini-2.0-flash-thinking'' False) = ''gemini-2.0-flash'' @ ''-thinking''"
    by (simp add: simpleRequest_def)
  show ?thesis
    using s m thinking_suffix_config
      [of "simpleRequest ''gemini-2.0-flash-thinking'' False" someDraws]
    by (simp add: n)
qed

section \<open>The \<open><think>\<close> extractor\<close>

lemma Index_sound:
  "Index s sub = Some i \<Longrightarrow> take i s @ sub @ drop (i + length sub) s = s"
proof (induction s arbitrary: i)
  case Nil
  then show ?case by (simp split: if_splits)
next
  case (Cons c cs)
  show ?case
  proof (cases "prefix sub (c # cs)")
    case True
    then obtain zs where "c # cs = sub @ zs" by (auto simp: prefix_def)
    moreover from True Cons.prems have "i = 0" by simp
    ultimately show ?thesis by simp
  next
    case False
    with Cons.prems obtain j where j: "Index cs sub = Some j" "i = Suc j" by auto
    from Cons.IH [OF j(1)] show ?thesis by (simp add: j(2))
  qed
qed

lemma Index_bound: "Index s sub = Some i \<Longrightarrow> i + length sub \<le> length s"
  by (induction s arbitrary: i) (auto dest: prefix_length_le split: if_splits)

lemma Index_prefix: "prefix sub s \<Longrightarrow> Index s sub = Some 0"
  by (cases s) auto

lemma Index_complete: "\<exists>i. Index (xs @ sub @ ys) sub = Some i"
proof (induction xs)
  case Nil
  show ?case by (simp add: Index_prefix)
next
  case (Cons x xs)
  then show ?case by auto
qed

lemma length_trimLeading: "length (trimLeading runes s) \<le> length s"
proof (induction runes s rule: trimLeading.induct)
  case (1 runes s)
  show ?case
  proof (cases "find (\<lambda>r. r \<noteq> [] \<and> prefix r s) runes")
    case None
    then show ?thesis by (simp add: trimLeading.simps [of runes s])
  next
    case (Some r)
    from 1 [OF Some] have "length (trimLeading runes (drop (length r) s)) \<le> length s" by simp
    then show ?thesis using Some by (simp add: trimLeading.simps [of runes s])
  qed
qed

lemma length_TrimSpace: "length (TrimSpace s) \<le> length s"
proof -
  have "length (TrimSpace s) =
        length (trimLeading (map rev spaceRunes) (rev (trimLeading spaceRunes s)))"
    by (simp add: TrimSpace_def)
  also have "\<dots> \<le> length (rev (trimLeading spaceRunes s))"
    by (rule length_trimLeading)
  also have "\<dots> = length (trimLeading spaceRunes s)" by (rule length_rev)
  also have "\<dots> \<le> length s" by (rule length_trimLeading)
  finally show ?thesis .
qed

lemma findThinkSubmatch_occurs:
  assumes "findThinkSubmatch s = Some (whole, grp)"
  shows "\<exists>xs ys. xs @ whole @ ys = s" and "whole = ''<think>'' @ grp @ ''</think>''"
proof -
  from assms obtain p where p: "Index s ''<think>'' = Some p"
    by (cases "Index s ''<think>''") (simp_all add: findThinkSubmatch_def)
  define rest where "rest = drop (p + length ''<think>'') s"
  have e: "(case Index rest ''</think>'' of
              None \<Rightarrow> None
            | Some q \<Rightarrow> Some (''<think>'' @ take q rest @ ''</think>'', take q rest))
           = Some (whole, grp)"
    using assms unfolding findThinkSubmatch_def p option.case Let_def rest_def [symmetric] .
  then obtain q where q: "Index rest ''</think>'' = Some q"
    by (cases "Index rest ''</think>''") simp_all
  from e have w: "whole = ''<think>'' @ take q rest @ ''</think>''" and g: "grp = take q rest"
    by (auto simp: q)
  have s1: "take p s @ ''<think>'' @ rest = s"
    unfolding rest_def by (rule Index_sound [OF p])
  have r1: "take q rest @ ''</think>'' @ drop (q + length ''</think>'') rest = rest"
    by (rule Index_sound [OF q])
  have "take p s @ whole @ drop (q + length ''</think>'') rest =
        take p s @ ''<think>'' @ (take q rest @ ''</think>'' @ drop (q + length ''</think>'') rest)"
    unfolding w by (simp only: append_assoc)
  also have "\<dots> = take p s @ ''<think>'' @ rest" by (simp only: r1)
  also have "\<dots> = s" by (rule s1)
  finally show "\<exists>xs ys. xs @ whole @ ys = s" by blast
  show "whole = ''<think>'' @ grp @ ''</think>''" unfolding w g ..
qed

lemma length_ReplaceFirst_occurs:
  assumes "xs @ old @ ys = s" "old \<noteq> []"
  shows "length (ReplaceFirst s old []) < length s"
proof -
  from Index_complete [of xs old ys] obtain i where i: "Index s old = Some i"
    unfolding assms(1) by blast
  from Index_bound [OF i] have b: "i + length old \<le> length s" .
  have p: "0 < length old" using assms(2) by simp
  have "length (ReplaceFirst s old []) = i + (length s - (i + length old))"
    using b by (simp add: ReplaceFirst_def i)
  with b p show ?thesis by linarith
qed

lemma extractThinking_shrinks:
  assumes "findThinkSubmatch c = Some m"
  shows "length (snd (extractThinking [] c)) < length c"
proof -
  obtain whole grp where m: "m = (whole, grp)" by (cases m)
  from findThinkSubmatch_occurs [OF assms [unfolded m]] obtain xs ys where
    o: "xs @ whole @ ys = c" and w: "whole \<noteq> []" by blast
  have "length (TrimSpace (ReplaceFirst c whole [])) \<le> length (ReplaceFirst c whole [])"
    by (rule length_TrimSpace)
  also have "\<dots> < length c" by (rule length_ReplaceFirst_occurs [OF o w])
  finally show ?thesis using assms by (simp add: extractThinking_def m)
qed

lemma extractThinking_no_match:
  "findThinkSubmatch c = None \<Longrightarrow> extractThinking r c = (r, c)"
  by (simp add: extractThinking_def)

text \<open>
  Claim C9, as amended. Running the extractor again on the content it produced makes no
  further change exactly when that content holds no \<open><think>\<close> block closed by a later
  \<open></think>\<close>: the extractor removes the first block only, and every run that finds a
  block shortens the content.
\<close>

theorem think_extractor_rerun:
  "snd (extractThinking [] (snd (extractThinking [] c))) = snd (extractThinking [] c)
     \<longleftrightarrow> findThinkSubmatch (snd (extractThinking [] c)) = None"
proof (cases "findThinkSubmatch (snd (extractThinking [] c))")
  case None
  then show ?thesis by (simp add: extractThinking_no_match)
next
  case (Some m)
  from extractThinking_shrinks [OF Some] show ?thesis using Some by auto
qed

text \<open>
  The claim as stated fails on a content with two blocks: the first run leaves the second
  block in the content, and the second run removes it.
\<close>

lemma extract_two_blocks:
  "extractThinking [] ''<think>a</think><think>b</think>c'' = (''a'', ''<think>b</think>c'')"
proof -
  have f: "findThinkSubmatch ''<think>a</think><think>b</think>c'' =
             Some (''<think>a</think>'', ''a'')"
    by code_simp
  have r: "ReplaceFirst ''<think>a</think><think>b</think>c'' ''<think>a</think>'' [] =
             ''<think>b</think>c''"
    by code_simp
  have t: "TrimSpace ''<think>b</think>c'' = ''<think>b</think>c''" "TrimSpace ''a'' = ''a''"
    by code_simp+
  show ?thesis by (simp add: extractThinking_def f r t)
qed

lemma extract_one_block:
  "extractThinking [] ''<think>b</think>c'' = (''b'', ''c'')"
proof -
  have f: "findThinkSubmatch ''<think>b</think>c'' = Some (''<think>b</think>'', ''b'')"
    by code_simp
  have r: "ReplaceFirst ''<think>b</think>c'' ''<think>b</think>'' [] = ''c''"
    by code_simp
  have t: "TrimSpace ''c'' = ''c''" "TrimSpace ''b'' = ''b''"
    by code_simp+
  show ?thesis by (simp add: extractThinking_def f r t)
qed

theorem think_extractor_not_idempotent:
  "snd (extractThinking [] (snd (extractThinking [] ''<think>a</think><think>b</think>c'')))
     \<noteq> snd (extractThinking [] ''<think>a</think><think>b</think>c'')"
  by (simp add: extract_two_blocks extract_one_block)

section \<open>Usage accounting\<close>

lemma int64_mod: "int64 a = int64 b \<longleftrightarrow> a mod 2 ^ 64 = b mod 2 ^ 64"
proof
  assume "int64 a = int64 b"
  then have "(a + 2 ^ 63) mod 2 ^ 64 = (b + 2 ^ 63) mod 2 ^ 64" by (simp add: int64_def)
  then have "(a + 2 ^ 63 - 2 ^ 63) mod 2 ^ 64 = (b + 2 ^ 63 - 2 ^ 63) mod 2 ^ 64"
    by (rule mod_diff_cong) simp
  then show "a mod 2 ^ 64 = b mod 2 ^ 64" by simp
next
  assume "a mod 2 ^ 64 = b mod 2 ^ 64"
  then have "(a + 2 ^ 63) mod 2 ^ 64 = (b + 2 ^ 63) mod 2 ^ 64"
    by (rule mod_add_cong) simp
  then show "int64 a = int64 b" by (simp add: int64_def)
qed

lemma int64_mod_self: "int64 a mod 2 ^ 64 = a mod 2 ^ 64"
proof -
  have "((a + 2 ^ 63) mod 2 ^ 64 - 2 ^ 63) mod 2 ^ 64 = (a + 2 ^ 63 - 2 ^ 63) mod 2 ^ (64::nat)"
    by (rule mod_diff_cong) simp_all
  then show ?thesis by (simp add: int64_def)
qed

lemma int64_add_left: "int64 (int64 a + b) = int64 (a + b)"
  unfolding int64_mod by (rule mod_add_cong [OF int64_mod_self refl])

lemma int64_add_right: "int64 (a + int64 b) = int64 (a + b)"
  unfolding int64_mod by (rule mod_add_cong [OF refl int64_mod_self])

lemma int64_idem: "int64 (int64 a) = int64 a"
  unfolding int64_mod by (rule int64_mod_self)


lemma usageInvariant_RecordUsage:
  assumes "usageInvariant a"
  shows "usageInvariant (RecordUsage t i o' a)"
proof (cases "Usage a")
  case None
  have "int64 (0 + int64 (i + o')) = int64 (int64 (0 + i) + int64 (0 + o'))"
    by (simp only: int64_add_left int64_add_right add_0 int64_idem)
  then show ?thesis
    by (simp add: usageInvariant_def RecordUsage_def None zeroUsageStats_def)
next
  case (Some u)
  with assms have inv: "TotalTokens u = int64 (InputTokens u + OutputTokens u)"
    by (simp add: usageInvariant_def)
  have "int64 (int64 (InputTokens u + OutputTokens u) + int64 (i + o')) =
        int64 (InputTokens u + OutputTokens u + (i + o'))"
    by (simp only: int64_add_left int64_add_right)
  also have "\<dots> = int64 ((InputTokens u + i) + (OutputTokens u + o'))"
    by (simp add: algebra_simps)
  also have "\<dots> = int64 (int64 (InputTokens u + i) + int64 (OutputTokens u + o'))"
    by (simp only: int64_add_left int64_add_right)
  finally show ?thesis
    by (simp add: usageInvariant_def RecordUsage_def Some inv)
qed

lemma usageInvariant_recordUsageInline:
  assumes "usageInvariant a" "int64 T = int64 (i + o')"
  shows "usageInvariant (fst (recordUsageInline T i o' a))"
proof (cases "Usage a")
  case None
  then show ?thesis by (simp add: usageInvariant_def recordUsageInline_def)
next
  case (Some u)
  with assms have inv: "TotalTokens u = int64 (InputTokens u + OutputTokens u)"
    by (simp add: usageInvariant_def)
  have "int64 (int64 (InputTokens u + OutputTokens u) + T) =
        int64 (int64 (InputTokens u + OutputTokens u) + int64 T)"
    by (simp only: int64_add_right)
  also have "\<dots> = int64 (InputTokens u + OutputTokens u + (i + o'))"
    by (simp only: assms(2) int64_add_left int64_add_right)
  also have "\<dots> = int64 ((InputTokens u + i) + (OutputTokens u + o'))"
    by (simp add: algebra_simps)
  also have "\<dots> = int64 (int64 (InputTokens u + i) + int64 (OutputTokens u + o'))"
    by (simp only: int64_add_left int64_add_right)
  finally show ?thesis
    by (simp add: usageInvariant_def recordUsageInline_def Some inv Let_def)
qed

lemma accountAfter_recordBothSinks:
  "accountAfter (recordBothSinks env st account store) =
     fst (recordUsageInline (totalTokens st) (inputTokens st) (outputTokens st) account)"
  by (simp add: recordBothSinks_def split: prod.splits)

lemma accountAfter_handleNormalResponse:
  "accountAfter (snd (handleNormalResponse env body model account store)) =
     (let st = aggregateLines env body zeroAggregate
      in fst (recordUsageInline (totalTokens st) (inputTokens st) (outputTokens st) account))"
  by (simp add: handleNormalResponse_def Let_def accountAfter_recordBothSinks split: prod.splits)

lemma accountAfter_handleStreamResponse:
  "accountAfter (snd (handleStreamResponse env body model account store)) =
     (let st = fst (streamLines env model body zeroAggregate 0)
      in fst (recordUsageInline (totalTokens st) (inputTokens st) (outputTokens st) account))"
  by (simp add: handleStreamResponse_def Let_def accountAfter_recordBothSinks split: prod.splits)

text \<open>
  Claim C3, as amended. \<open>Account.RecordUsage\<close> keeps the invariant
  \<open>total = input + output\<close>. The two proxy handlers add the total that the upstream
  reported, so they keep the invariant when that total equals the reported input plus
  output (as it does when no usage metadata arrived).
\<close>

theorem usage_invariant_preserved:
  "(usageInvariant a \<longrightarrow> usageInvariant (RecordUsage t i o' a)) \<and>
   (usageInvariant a \<longrightarrow>
      totalTokens (aggregateLines env body zeroAggregate) =
        inputTokens (aggregateLines env body zeroAggregate)
          + outputTokens (aggregateLines env body zeroAggregate) \<longrightarrow>
      usageInvariant (accountAfter (snd (handleNormalResponse env body model a store)))) \<and>
   (usageInvariant a \<longrightarrow>
      totalTokens (fst (streamLines env model body zeroAggregate 0)) =
        inputTokens (fst (streamLines env model body zeroAggregate 0))
          + outputTokens (fst (streamLines env model body zeroAggregate 0)) \<longrightarrow>
      usageInvariant (accountAfter (snd (handleStreamResponse env body model a store))))"
  by (simp add: usageInvariant_RecordUsage accountAfter_handleNormalResponse
      accountAfter_handleStreamResponse usageInvariant_recordUsageInline Let_def)

theorem usage_invariant_preserved_witness:
  "usageInvariant (newAccount ''acc1'') \<and>
   totalTokens (aggregateLines scenarioEnv [answerLine, [], doneLine] zeroAggregate) = 7 \<and>
   inputTokens (aggregateLines scenarioEnv [answerLine, [], doneLine] zeroAggregate) = 3 \<and>
   outputTokens (aggregateLines scenarioEnv [answerLine, [], doneLine] zeroAggregate) = 4 \<and>
   fst (streamLines scenarioEnv ''gemini-2.0-flash'' [answerLine, [], doneLine] zeroAggregate 0) =
     \<lparr>content = [], reasoning = [], totalTokens = 7, inputTokens = 3, outputTokens = 4\<rparr> \<and>
   usageInvariant (RecordUsage (clockAt 1700000000) 5 7 (newAccount ''acc1'')) \<and>
   usageInvariant (accountAfter (snd (handleNormalResponse scenarioEnv
     [answerLine, [], doneLine] ''gemini-2.0-flash'' (newAccount ''acc1'') emptyUsageStore))) \<and>
   usageInvariant (accountAfter (snd (handleStreamResponse scenarioEnv
     [answerLine, [], doneLine] ''gemini-2.0-flash'' (newAccount ''acc1'') emptyUsageStore)))"
proof -
  have i: "usageInvariant (newAccount ''acc1'')"
    by code_simp
  have n: "aggregateLines scenarioEnv [answerLine, [], doneLine] zeroAggregate =
      \<lparr>content = ''42'', reasoning = [], totalTokens = 7, inputTokens = 3, outputTokens = 4\<rparr>"
    by code_simp
  have s: "fst (streamLines scenarioEnv ''gemini-2.0-flash'' [answerLine, [], doneLine]
                  zeroAggregate 0) =
      \<lparr>content = [], reasoning = [], totalTokens = 7, inputTokens = 3, outputTokens = 4\<rparr>"
    by code_simp
  show ?thesis
    using i usage_invariant_preserved
      [of "newAccount ''acc1''" "clockAt 1700000000" 5 7 scenarioEnv
          "[answerLine, [], doneLine]" "''gemini-2.0-flash''" emptyUsageStore]
    by (simp add: n s del: aggregateLines.simps streamLines.simps)
qed

section \<open>Response translation\<close>

lemma partChunks_enumerate:
  "partChunks env model n parts =
     map (\<lambda>(k, part). ChunkEvent (partChunk env model k part)) (enumerate n parts)"
  by (induction parts arbitrary: n) simp_all

lemma streamLines_events:
  "snd (streamLines env model body st n) =
     map (\<lambda>(k, part). ChunkEvent (partChunk env model k part))
       (enumerate n (upstreamParts env body))"
proof (induction body arbitrary: st n)
  case Nil
  show ?case by simp
next
  case (Cons line rest)
  note IH = Cons.IH
  show ?case
  proof (cases "HasPrefix line ''data: ''")
    case False
    then show ?thesis by (simp add: IH)
  next
    case True
    note pre = this
    show ?thesis
    proof (cases "TrimPrefix line ''data: '' = ''[DONE]''")
      case True
      then show ?thesis using pre by simp
    next
      case False
      note nd = this
      show ?thesis
      proof (cases "Unmarshal env (TrimPrefix line ''data: '')")
        case None
        then show ?thesis using pre nd by (simp add: IH)
      next
        case (Some googleResp)
        show ?thesis
        proof (cases "Candidates (Response googleResp)")
          case Nil
          then show ?thesis using pre nd Some by (simp add: IH)
        next
          case (Cons candidate others)
          then show ?thesis
            using pre nd Some
            by (simp add: IH partChunks_enumerate enumerate_append_eq Let_def
                case_prod_beta)
        qed
      qed
    qed
  qed
qed

text \<open>
  Claim C10. In streaming mode every upstream part, thought or not, gives exactly one
  chunk whose \<open>delta.content\<close> is the part's text as it came and whose reasoning field is
  empty (so the encoder omits it); the events written are these chunks, in the order of
  the parts, followed by the \<open>[DONE]\<close> event. The thought flag of a part has no effect
  on its chunk.
\<close>

theorem streaming_thought_as_content:
  "fst (handleStreamResponse env body model account store) =
     map (\<lambda>(n, part). ChunkEvent
            \<lparr>ID_chunk = ''chatcmpl-'' @ uuidAt env n,
             Object_chunk = ''chat.completion.chunk'',
             Created_chunk = unixAt env n,
             Model_chunk = model,
             SystemFingerprint_chunk = [],
             Choices_chunk =
               [\<lparr>Index_cc = 0,
                 Delta = \<lparr>Role_delta = [], Content_delta = Text part, Reasoning_delta = [],
                          ToolCalls_delta = []\<rparr>,
                 FinishReason_cc = None\<rparr>]\<rparr>)
       (enumerate 0 (upstreamParts env body)) @ [DoneEvent] \<and>
   partChunk env model n (part\<lparr>Thought := b\<rparr>) = partChunk env model n part"
proof
  have "fst (handleStreamResponse env body model account store) =
        snd (streamLines env model body zeroAggregate 0) @ [DoneEvent]"
    by (simp add: handleStreamResponse_def split: prod.splits)
  then show "fst (handleStreamResponse env body model account store) =
     map (\<lambda>(n, part). ChunkEvent
            \<lparr>ID_chunk = ''chatcmpl-'' @ uuidAt env n,
             Object_chunk = ''chat.completion.chunk'',
             Created_chunk = unixAt env n,
             Model_chunk = model,
             SystemFingerprint_chunk = [],
             Choices_chunk =
               [\<lparr>Index_cc = 0,
                 Delta = \<lparr>Role_delta = [], Content_delta = Text part, Reasoning_delta = [],
                          ToolCalls_delta = []\<rparr>,
                 FinishReason_cc = None\<rparr>]\<rparr>)
       (enumerate 0 (upstreamParts env body)) @ [DoneEvent]"
    by (simp add: streamLines_events partChunk_def)
  show "partChunk env model n (part\<lparr>Thought := b\<rparr>) = partChunk env model n part"
    by (simp add: partChunk_def)
qed

lemma streaming_example:
  "upstreamParts scenarioEnv [thoughtLine, [], doneLine] =
     [(textPart ''plan'')\<lparr>Thought := True\<rparr>, textPart ''answer'']"
  by code_simp

lemma handleNormalResponse_no_tool_calls:
  "map (\<lambda>c. ToolCalls_msg (Message c))
     (Choices_resp (fst (handleNormalResponse env body model account store))) = [[]]"
  by (simp add: handleNormalResponse_def Let_def split: prod.splits)

text \<open>
  Claim C1, at an input where the code departs from it. The upstream stream holds one
  event whose only part is a function call; the aggregated response carries no tool call
  and an empty content.
\<close>

theorem function_call_parts_dropped:
  "Unmarshal scenarioEnv (TrimPrefix toolLine ''data: '') = Some toolEvent \<and>
   map Message (Choices_resp (fst (handleNormalResponse scenarioEnv [toolLine, [], doneLine]
        ''gemini-2.0-flash'' (newAccount ''acc1'') emptyUsageStore))) =
     [\<lparr>Role_msg = ''assistant'', Content_msg = JString [], Reasoning_msg = [], Name_msg = [],
       ToolCalls_msg = [], ToolCallID_msg = []\<rparr>]"
  by code_simp

lemma recordUsageInline_LastUsed:
  "map_option LastUsed (Usage (fst (recordUsageInline T i o' a))) = map_option LastUsed (Usage a)"
  by (simp add: recordUsageInline_def Let_def split: option.splits)

lemma recordUsageInline_no_usage:
  "Usage a = None \<Longrightarrow> recordUsageInline T i o' a = (a, [])"
  by (simp add: recordUsageInline_def)

text \<open>
  What the handlers do record: on an account that has a usage block the three counters
  and the request count advance, and when the usage directory can be created and written
  the daily file of the account holds the old record, or a new one, with the input, the
  output, their sum and one request added.
\<close>

lemma recordBothSinks_account:
  assumes "Usage account = Some u"
  shows "Usage (accountAfter (recordBothSinks env st account store)) =
           Some (u\<lparr>TotalTokens := int64 (TotalTokens u + totalTokens st),
                   InputTokens := int64 (InputTokens u + inputTokens st),
                   OutputTokens := int64 (OutputTokens u + outputTokens st),
                   RequestCount := int64 (RequestCount u + 1)\<rparr>)"
  using assms
  by (simp add: recordBothSinks_def recordUsageInline_def Let_def split: prod.splits)

lemma AccountID_recordUsageInline:
  "AccountID (fst (recordUsageInline T i o' a)) = AccountID a"
  by (simp add: recordUsageInline_def Let_def split: option.splits)

lemma recordBothSinks_file:
  assumes "mkdirAllOK store" "writeFileOK store"
  shows "files (usageAfter (recordBothSinks env st account store))
           (usageFileName (today env) (AccountID account)) =
         Some (let old = (case files store (usageFileName (today env) (AccountID account)) of
                            Some r \<Rightarrow> r
                          | None \<Rightarrow> \<lparr>Date = today env, AccountID_rec = AccountID account,
                                      TotalTokens_rec = 0, InputTokens_rec = 0,
                                      OutputTokens_rec = 0, RequestCount_rec = 0\<rparr>)
               in old\<lparr>InputTokens_rec := int64 (InputTokens_rec old + inputTokens st),
                       OutputTokens_rec := int64 (OutputTokens_rec old + outputTokens st),
                       TotalTokens_rec :=
                         int64 (TotalTokens_rec old + int64 (inputTokens st + outputTokens st)),
                       RequestCount_rec := int64 (RequestCount_rec old + 1)\<rparr>)"
proof -
  obtain account' saves where
    r: "recordUsageInline (totalTokens st) (inputTokens st) (outputTokens st) account =
          (account', saves)"
    by (cases "recordUsageInline (totalTokens st) (inputTokens st) (outputTokens st) account")
  have "AccountID account' = AccountID account"
    using AccountID_recordUsageInline
      [of "totalTokens st" "inputTokens st" "outputTokens st" account]
    by (simp add: r)
  then show ?thesis
    using assms
    by (simp add: recordBothSinks_def r UsageStore_RecordUsage_def Let_def
        cong: option.case_cong)
qed

text \<open>
  Claim C2, at an input where the code departs from it. A new account completes one
  request; the handler advances the counters of its usage block and writes the daily
  file, and leaves \<open>last_used_at\<close> unset.
\<close>

theorem last_used_never_set:
  "Usage (newAccount ''acc1'') = Some zeroUsageStats \<and>
   Usage (accountAfter (snd (handleNormalResponse scenarioEnv [textLine, [], doneLine]
      ''gemini-2.0-flash'' (newAccount ''acc1'') emptyUsageStore))) =
     Some \<lparr>TotalTokens = 10, InputTokens = 1, OutputTokens = 2, RequestCount = 1,
           LastUsed = None\<rparr> \<and>
   files (usageAfter (snd (handleNormalResponse scenarioEnv [textLine, [], doneLine]
      ''gemini-2.0-flash'' (newAccount ''acc1'') emptyUsageStore))) ''2023-11-14_acc1.json'' =
     Some \<lparr>Date = ''2023-11-14'', AccountID_rec = ''acc1'', TotalTokens_rec = 3,
           InputTokens_rec = 1, OutputTokens_rec = 2, RequestCount_rec = 1\<rparr>"
  by code_simp

text \<open>
  Claim C3 as stated fails when the upstream total also counts thinking tokens: the
  handler stores a total of 10 beside an input of 1 and an output of 2.
\<close>

theorem usage_invariant_broken_by_handler:
  "usageInvariant (newAccount ''acc1'') \<and>
   \<not> usageInvariant (accountAfter (snd (handleNormalResponse scenarioEnv
        [textLine, [], doneLine] ''gemini-2.0-flash'' (newAccount ''acc1'') emptyUsageStore)))"
  by code_simp

section \<open>Account selection\<close>

lemma IsInCooldown_RecordSuccess: "\<not> IsInCooldown t (RecordSuccess t' a)"
  by (simp add: IsInCooldown_def RecordSuccess_def)

lemma Enable_RecordSuccess: "Enable (RecordSuccess t a) = Enable a"
  by (simp add: RecordSuccess_def)

lemma Client_RefreshToken_ok:
  assumes "Client_RefreshToken t env account = Inr (None, account', saves)"
  shows "Enable account' = Enable account \<and> \<not> IsInCooldown t account'"
proof (cases "tokenSource env account")
  case (Inl err)
  with assms show ?thesis
    by (simp add: Client_RefreshToken_def split: sum.splits)
next
  case (Inr newToken)
  with assms obtain a2 where "account' = RecordSuccess t a2" "Enable a2 = Enable account"
    by (auto simp: Client_RefreshToken_def Let_def split: if_splits option.splits)
  then show ?thesis by (simp add: IsInCooldown_RecordSuccess Enable_RecordSuccess)
qed

lemma tryAccount_usable:
  assumes "tryAccount t env accountID = Inr (Some a, saves)"
  shows "Enable a \<and> \<not> IsInCooldown t a"
proof (cases "loadAccount env accountID")
  case (Inl err)
  with assms show ?thesis by (simp add: tryAccount_def)
next
  case (Inr account)
  show ?thesis
  proof (cases "Enable account \<and> \<not> IsInCooldown t account")
    case False
    with assms Inr show ?thesis by (auto simp: tryAccount_def split: if_splits)
  next
    case True
    note ok = this
    show ?thesis
    proof (cases "NeedsRefresh t account")
      case False
      with assms Inr ok show ?thesis by (auto simp: tryAccount_def)
    next
      case True
      with assms Inr ok have "Client_RefreshToken t env account = Inr (None, a, saves)"
        by (auto simp: tryAccount_def split: sum.splits option.splits)
      from Client_RefreshToken_ok [OF this] ok show ?thesis by simp
    qed
  qed
qed

lemma rotate_usable:
  "rotate t env ids k c saves = Inr r \<Longrightarrow> selected r = Inr a \<Longrightarrow>
     Enable a \<and> \<not> IsInCooldown t a"
proof (induction k arbitrary: c saves)
  case 0
  then show ?case by auto
next
  case (Suc k)
  let ?c = "(c + 1) mod length ids"
  show ?case
  proof (cases "tryAccount t env (ids ! ?c)")
    case (Inl p)
    with Suc.prems show ?thesis by (simp add: Let_def)
  next
    case (Inr res)
    obtain found saves' where res: "res = (found, saves')" by (cases res)
    show ?thesis
    proof (cases found)
      case None
      with Suc.prems Inr res have "rotate t env ids k ?c (saves @ saves') = Inr r"
        by (simp add: Let_def)
      from Suc.IH [OF this Suc.prems(2)] show ?thesis .
    next
      case (Some account)
      with Suc.prems Inr res have "a = account" by (auto simp: Let_def)
      with tryAccount_usable [of t env "ids ! ?c" account saves'] Inr res Some
      show ?thesis by simp
    qed
  qed
qed

lemma rotate_all_skipped:
  assumes "\<forall>i<length ids. \<exists>saves. tryAccount t env (ids ! i) = Inr (None, saves)"
    and "ids \<noteq> []"
  shows "\<exists>r. rotate t env ids k c saves = Inr r \<and> selected r = Inl NoUsableAccount"
proof (induction k arbitrary: c saves)
  case 0
  show ?case by simp
next
  case (Suc k)
  let ?c = "(c + 1) mod length ids"
  from assms(2) have "?c < length ids" by simp
  with assms(1) obtain saves' where "tryAccount t env (ids ! ?c) = Inr (None, saves')" by blast
  then show ?case using Suc.IH [of ?c "saves @ saves'"] by (simp add: Let_def)
qed

text \<open>
  Claim C5. An account returned by \<open>GetToken\<close> is enabled and not in cooldown at the clock
  reading of the call. When the store lists no account the call fails with \<open>NoAccounts\<close>;
  when it lists some and every position of the walk is skipped, it fails with
  \<open>NoUsableAccount\<close>.
\<close>

theorem acquire_skips_unusable_accounts:
  "(GetToken t env c = Inr r \<and> selected r = Inr a \<longrightarrow> Enable a \<and> \<not> IsInCooldown t a) \<and>
   (listAccounts env = Inr [] \<longrightarrow>
      (\<exists>r. GetToken t env c = Inr r \<and> selected r = Inl NoAccounts)) \<and>
   (listAccounts env = Inr ids \<and> ids \<noteq> [] \<and>
    (\<forall>i<length ids. \<exists>saves. tryAccount t env (ids ! i) = Inr (None, saves)) \<longrightarrow>
      (\<exists>r. GetToken t env c = Inr r \<and> selected r = Inl NoUsableAccount))"
proof (intro conjI)
  show "GetToken t env c = Inr r \<and> selected r = Inr a \<longrightarrow> Enable a \<and> \<not> IsInCooldown t a"
  proof
    assume "GetToken t env c = Inr r \<and> selected r = Inr a"
    then have g: "GetToken t env c = Inr r" and s: "selected r = Inr a" by simp_all
    show "Enable a \<and> \<not> IsInCooldown t a"
    proof (cases "listAccounts env")
      case (Inl err)
      with g s show ?thesis by (auto simp: GetToken_def)
    next
      case (Inr accountIDs)
      show ?thesis
      proof (cases "accountIDs = []")
        case True
        with g s Inr show ?thesis by (auto simp: GetToken_def)
      next
        case False
        with g Inr have "rotate t env accountIDs (length accountIDs) c [] = Inr r"
          by (simp add: GetToken_def)
        from rotate_usable [OF this s] show ?thesis .
      qed
    qed
  qed
next
  show "listAccounts env = Inr [] \<longrightarrow>
      (\<exists>r. GetToken t env c = Inr r \<and> selected r = Inl NoAccounts)"
    by (simp add: GetToken_def)
next
  show "listAccounts env = Inr ids \<and> ids \<noteq> [] \<and>
    (\<forall>i<length ids. \<exists>saves. tryAccount t env (ids ! i) = Inr (None, saves)) \<longrightarrow>
      (\<exists>r. GetToken t env c = Inr r \<and> selected r = Inl NoUsableAccount)"
  proof
    assume h: "listAccounts env = Inr ids \<and> ids \<noteq> [] \<and>
      (\<forall>i<length ids. \<exists>saves. tryAccount t env (ids ! i) = Inr (None, saves))"
    then have "\<exists>r. rotate t env ids (length ids) c [] = Inr r \<and>
                 selected r = Inl NoUsableAccount"
      by (intro rotate_all_skipped) simp_all
    with h show "\<exists>r. GetToken t env c = Inr r \<and> selected r = Inl NoUsableAccount"
      by (simp add: GetToken_def)
  qed
qed

theorem acquire_skips_unusable_accounts_witness:
  "GetToken (clockAt 1700000000) poolEnv 0 =
     Inr \<lparr>cursorAfter = 1, savedByRefresh = [], selected = Inr (newAccount ''acc2'')\<rparr> \<and>
   Enable (newAccount ''acc2'') \<and>
   \<not> IsInCooldown (clockAt 1700000000) (newAccount ''acc2'') \<and>
   listAccounts emptyPoolEnv = Inr [] \<and>
   (\<exists>r. GetToken (clockAt 1700000000) emptyPoolEnv 0 = Inr r \<and> selected r = Inl NoAccounts) \<and>
   listAccounts cooledPoolEnv = Inr [''acc1'', ''acc2''] \<and>
   tryAccount (clockAt 1700000000) cooledPoolEnv ''acc1'' = Inr (None, []) \<and>
   tryAccount (clockAt 1700000000) cooledPoolEnv ''acc2'' = Inr (None, []) \<and>
   (\<exists>r. GetToken (clockAt 1700000000) cooledPoolEnv 0 = Inr r \<and>
        selected r = Inl NoUsableAccount)"
proof -
  let ?t = "clockAt 1700000000"
  let ?r = "\<lparr>cursorAfter = 1, savedByRefresh = [], selected = Inr (newAccount ''acc2'')\<rparr>"
  have g: "GetToken ?t poolEnv 0 = Inr ?r"
    by code_simp
  have s: "selected ?r = Inr (newAccount ''acc2'')" by simp
  have e: "listAccounts emptyPoolEnv = Inr []"
    by (simp add: emptyPoolEnv_def)
  have l: "listAccounts cooledPoolEnv = Inr [''acc1'', ''acc2'']"
    by (simp add: cooledPoolEnv_def poolEnv_def)
  have t1: "tryAccount ?t cooledPoolEnv ''acc1'' = Inr (None, [])"
    by code_simp
  have t2: "tryAccount ?t cooledPoolEnv ''acc2'' = Inr (None, [])"
    by code_simp
  have all: "\<forall>i<length [''acc1'', ''acc2''].
               \<exists>saves. tryAccount ?t cooledPoolEnv ([''acc1'', ''acc2''] ! i) = Inr (None, saves)"
    using t1 t2 by (simp add: less_Suc_eq)
  have ne: "[''acc1'', ''acc2''] \<noteq> []" by simp
  note a1 = acquire_skips_unusable_accounts
    [of ?t poolEnv 0 ?r "newAccount ''acc2''", THEN conjunct1, rule_format, OF conjI [OF g s]]
  note a2 = acquire_skips_unusable_accounts
    [of ?t emptyPoolEnv 0, THEN conjunct2, THEN conjunct1, rule_format, OF e]
  note a3 = acquire_skips_unusable_accounts
    [of ?t cooledPoolEnv 0 _ _ "[''acc1'', ''acc2'']", THEN conjunct2, THEN conjunct2,
     rule_format, OF conjI [OF l conjI [OF ne all]]]
  show ?thesis using g a1 e a2 l t1 t2 a3 by simp
qed

section \<open>Proxy orchestration\<close>

lemma attemptStep_reached:
  assumes "upstreamOutcome req a account up"
  shows "attemptStep req a =
     (case up of
        TransportError err \<Rightarrow>
          (case RecordFailure (attemptClock a) err account of
             Inl p \<Rightarrow> Finish (Panicked p) []
           | Inr account' \<Rightarrow> Retry err [account'])
      | HTTPResponse status body \<Rightarrow>
          if status \<noteq> 200 then
            (if status = 429 then
               (case ErrorTracking account of
                  None \<Rightarrow> Finish (Panicked NilDereference) []
                | Some e \<Rightarrow>
                    Retry ''rate limit exceeded'' [RecordRateLimit (attemptClock a) account])
             else if status = 403 then
               Retry ''permission denied'' [RecordPermissionDenied (attemptClock a) account]
             else
               (case RecordFailure (attemptClock a)
                       (''HTTP '' @ Itoa status @ '': '' @ body) account of
                  Inl p \<Rightarrow> Finish (Panicked p) []
                | Inr account' \<Rightarrow>
                    if status \<ge> 400 \<and> status < 500
                    then Finish (Replied status
                           [(''error'', JString ''Upstream API error''),
                            (''details'', JString body)]) [account']
                    else Retry (''HTTP '' @ Itoa status @ '': '' @ body) [account']))
          else
            (let account' = RecordSuccess (attemptClock a) account
             in if Stream req then Finish (HandedToStream account' body) [account']
                else Finish (HandedToNormal account' body) [account']))"
  using assms by (simp add: upstreamOutcome_def attemptStep_def Let_def)

lemma attemptLoop_Retry:
  assumes "attemptStep req (env n) = Retry err saves"
  shows "attemptLoop env req n (Suc k) lastErr =
           (fst (attemptLoop env req (n + 1) k (Some err)),
            saves @ snd (attemptLoop env req (n + 1) k (Some err)))"
  using assms by (simp add: case_prod_beta)

lemma attemptLoop_Finish:
  assumes "attemptStep req (env n) = Finish c saves"
  shows "attemptLoop env req n (Suc k) lastErr = (c, saves)"
  using assms by simp

lemma attemptLoop_all_retry:
  assumes "\<forall>i<k. \<exists>e s. attemptStep req (env (n + i)) = Retry e s"
  shows "fst (attemptLoop env req n k lastErr) =
           (case (if k = 0 then lastErr
                  else (case attemptStep req (env (n + k - 1)) of
                          Retry e s \<Rightarrow> Some e | Finish c s \<Rightarrow> None)) of
              None \<Rightarrow> Panicked NilDereference
            | Some err \<Rightarrow> Replied 503
                [(''error'', JString ''Service unavailable after retries''),
                 (''details'', JString err),
                 (''retries'', JNumber 5)])"
  using assms
proof (induction k arbitrary: n lastErr)
  case 0
  show ?case by (simp split: option.splits)
next
  case (Suc k)
  from Suc.prems have "\<exists>e s. attemptStep req (env (n + 0)) = Retry e s" by blast
  then obtain e s where first: "attemptStep req (env n) = Retry e s" by auto
  have rest: "\<forall>i<k. \<exists>e s. attemptStep req (env (Suc n + i)) = Retry e s"
  proof (intro allI impI)
    fix i assume "i < k"
    then have "Suc i < Suc k" by simp
    with Suc.prems have "\<exists>e s. attemptStep req (env (n + Suc i)) = Retry e s" by blast
    then show "\<exists>e s. attemptStep req (env (Suc n + i)) = Retry e s" by simp
  qed
  have "fst (attemptLoop env req n (Suc k) lastErr) = fst (attemptLoop env req (Suc n) k (Some e))"
    using first by (simp add: case_prod_beta)
  also note Suc.IH [OF rest, of "Some e"]
  finally show ?case using first by (cases k) simp_all
qed


text \<open>
  The classification of an attempt that reaches the upstream with an account that has an
  error-tracking block: a 429 saves the account with the rate limit recorded and the loop
  goes on; a 403 saves it disabled and the loop goes on; any other status from 400 to 499
  saves it with a generic failure recorded and ends the request with that status and the
  upstream body; a status of 500 or more, or a transport error, saves it with a generic
  failure recorded and the loop goes on. When all five attempts go on, the caller gets a
  503 with the reason of the fifth and the attempt count 5.
\<close>

lemma attempt_classification:
  "(upstreamOutcome req a account (HTTPResponse 429 body) \<and> ErrorTracking account = Some e
      \<longrightarrow>
      attemptStep req a =
        Retry ''rate limit exceeded'' [RecordRateLimit (attemptClock a) account]) \<and>
   (upstreamOutcome req a account (HTTPResponse 403 body) \<longrightarrow>
      attemptStep req a =
        Retry ''permission denied'' [RecordPermissionDenied (attemptClock a) account] \<and>
      \<not> Enable (RecordPermissionDenied (attemptClock a) account)) \<and>
   (upstreamOutcome req a account (HTTPResponse status body) \<and>
    400 \<le> status \<and> status < 500 \<and> status \<noteq> 429 \<and> status \<noteq> 403 \<and>
    RecordFailure (attemptClock a) (''HTTP '' @ Itoa status @ '': '' @ body) account
      = Inr account' \<longrightarrow>
      attemptStep req a =
        Finish (Replied status [(''error'', JString ''Upstream API error''),
                                (''details'', JString body)]) [account']) \<and>
   (upstreamOutcome req a account (HTTPResponse status body) \<and> 500 \<le> status \<and>
    RecordFailure (attemptClock a) (''HTTP '' @ Itoa status @ '': '' @ body) account
      = Inr account' \<longrightarrow>
      attemptStep req a = Retry (''HTTP '' @ Itoa status @ '': '' @ body) [account']) \<and>
   (upstreamOutcome req a account (TransportError err) \<and>
    RecordFailure (attemptClock a) err account = Inr account' \<longrightarrow>
      attemptStep req a = Retry err [account']) \<and>
   (attemptStep req (env n) = Retry err saves \<longrightarrow>
      attemptLoop env req n (Suc k) lastErr =
        (fst (attemptLoop env req (n + 1) k (Some err)),
         saves @ snd (attemptLoop env req (n + 1) k (Some err)))) \<and>
   (attemptStep req (env n) = Finish c saves \<longrightarrow>
      attemptLoop env req n (Suc k) lastErr = (c, saves)) \<and>
   ((\<forall>i<5. \<exists>e s. attemptStep req (env i) = Retry e s) \<and>
    attemptStep req (env 4) = Retry lastReason lastSaves \<longrightarrow>
      fst (chatCompletions env (Inr req)) =
        Replied 503 [(''error'', JString ''Service unavailable after retries''),
                     (''details'', JString lastReason),
                     (''retries'', JNumber 5)])"
proof (intro conjI)
  show "upstreamOutcome req a account (HTTPResponse 429 body) \<and> ErrorTracking account = Some e
      \<longrightarrow>
      attemptStep req a =
        Retry ''rate limit exceeded'' [RecordRateLimit (attemptClock a) account]"
    by (auto simp: attemptStep_reached)
  show "upstreamOutcome req a account (HTTPResponse 403 body) \<longrightarrow>
      attemptStep req a =
        Retry ''permission denied'' [RecordPermissionDenied (attemptClock a) account] \<and>
      \<not> Enable (RecordPermissionDenied (attemptClock a) account)"
    by (simp add: attemptStep_reached RecordPermissionDenied_def)
  show "upstreamOutcome req a account (HTTPResponse status body) \<and>
    400 \<le> status \<and> status < 500 \<and> status \<noteq> 429 \<and> status \<noteq> 403 \<and>
    RecordFailure (attemptClock a) (''HTTP '' @ Itoa status @ '': '' @ body) account
      = Inr account' \<longrightarrow>
      attemptStep req a =
        Finish (Replied status [(''error'', JString ''Upstream API error''),
                                (''details'', JString body)]) [account']"
    by (auto simp: attemptStep_reached)
  show "upstreamOutcome req a account (HTTPResponse status body) \<and> 500 \<le> status \<and>
    RecordFailure (attemptClock a) (''HTTP '' @ Itoa status @ '': '' @ body) account
      = Inr account' \<longrightarrow>
      attemptStep req a = Retry (''HTTP '' @ Itoa status @ '': '' @ body) [account']"
    by (auto simp: attemptStep_reached)
  show "upstreamOutcome req a account (TransportError err) \<and>
    RecordFailure (attemptClock a) err account = Inr account' \<longrightarrow>
      attemptStep req a = Retry err [account']"
    by (auto simp: attemptStep_reached)
  show "attemptStep req (env n) = Retry err saves \<longrightarrow>
      attemptLoop env req n (Suc k) lastErr =
        (fst (attemptLoop env req (n + 1) k (Some err)),
         saves @ snd (attemptLoop env req (n + 1) k (Some err)))"
    using attemptLoop_Retry by blast
  show "attemptStep req (env n) = Finish c saves \<longrightarrow>
      attemptLoop env req n (Suc k) lastErr = (c, saves)"
    using attemptLoop_Finish by blast
  show "(\<forall>i<5. \<exists>e s. attemptStep req (env i) = Retry e s) \<and>
    attemptStep req (env 4) = Retry lastReason lastSaves \<longrightarrow>
      fst (chatCompletions env (Inr req)) =
        Replied 503 [(''error'', JString ''Service unavailable after retries''),
                     (''details'', JString lastReason),
                     (''retries'', JNumber 5)]"
  proof
    assume h: "(\<forall>i<5. \<exists>e s. attemptStep req (env i) = Retry e s) \<and>
      attemptStep req (env 4) = Retry lastReason lastSaves"
    then have "\<forall>i<5. \<exists>e s. attemptStep req (env (0 + i)) = Retry e s" by simp
    from attemptLoop_all_retry [OF this, of None] h
    show "fst (chatCompletions env (Inr req)) =
        Replied 503 [(''error'', JString ''Service unavailable after retries''),
                     (''details'', JString lastReason),
                     (''retries'', JNumber 5)]"
      by (simp add: chatCompletions_def maxRetries_def)
  qed
qed

lemma sprintf_404: "Itoa 404 = ''404''"
  by code_simp

lemma sprintf_500: "Itoa 500 = ''500''"
  by code_simp

lemma RecordFailure_first:
  "RecordFailure (clockAt 1700000000) err (newAccount ident) = Inr (failedOnce ident err)"
  by (simp add: RecordFailure_def newAccount_def failedOnce_def errorTrackingOrZero_def
      zeroErrorTracking_def shl1_int64_def int64_def clockAt_def Let_def)

lemma reached:
  "upstreamOutcome scenarioRequest (attemptWith ident up) (newAccount ident) up"
  by (simp add: upstreamOutcome_def attemptWith_def)

lemma attemptClock_attemptWith: "attemptClock (attemptWith ident up) = clockAt 1700000000"
  by (simp add: attemptWith_def)

lemma attempt_classification_example:
  "upstreamOutcome scenarioRequest (attemptWith ''acc1'' (HTTPResponse 429 ''quota''))
     (newAccount ''acc1'') (HTTPResponse 429 ''quota'') \<and>
   attemptStep scenarioRequest (attemptWith ''acc1'' (HTTPResponse 429 ''quota'')) =
     Retry ''rate limit exceeded'' [RecordRateLimit (clockAt 1700000000) (newAccount ''acc1'')] \<and>
   attemptStep scenarioRequest (attemptWith ''acc1'' (HTTPResponse 403 ''denied'')) =
     Retry ''permission denied''
       [RecordPermissionDenied (clockAt 1700000000) (newAccount ''acc1'')] \<and>
   attemptStep scenarioRequest (attemptWith ''acc1'' (HTTPResponse 404 ''nope'')) =
     Finish (Replied 404 [(''error'', JString ''Upstream API error''),
                          (''details'', JString ''nope'')])
       [failedOnce ''acc1'' ''HTTP 404: nope''] \<and>
   attemptStep scenarioRequest (attemptWith ''acc1'' (HTTPResponse 500 ''boom'')) =
     Retry ''HTTP 500: boom'' [failedOnce ''acc1'' ''HTTP 500: boom''] \<and>
   attemptStep scenarioRequest (attemptWith ''acc5'' (TransportError ''dial tcp: timeout'')) =
     Retry ''dial tcp: timeout'' [failedOnce ''acc5'' ''dial tcp: timeout''] \<and>
   attemptLoop rotatingAttempts scenarioRequest 0 (Suc 4) None =
     (HandedToNormal (RecordSuccess (clockAt 1700000000) (newAccount ''acc2'')) textLine,
      [RecordRateLimit (clockAt 1700000000) (newAccount ''acc1''),
       RecordSuccess (clockAt 1700000000) (newAccount ''acc2'')]) \<and>
   fst (chatCompletions failingAttempts (Inr scenarioRequest)) =
     Replied 503 [(''error'', JString ''Service unavailable after retries''),
                  (''details'', JString ''dial tcp: timeout''),
                  (''retries'', JNumber 5)]"
proof -
  let ?t = "clockAt 1700000000"
  let ?rq = scenarioRequest
  note cls = attempt_classification
  have w429: "attemptStep ?rq (attemptWith ''acc1'' (HTTPResponse 429 ''quota'')) =
      Retry ''rate limit exceeded'' [RecordRateLimit ?t (newAccount ''acc1'')]"
    using cls [where req = ?rq and a = "attemptWith ''acc1'' (HTTPResponse 429 ''quota'')"
                 and account = "newAccount ''acc1''" and body = "''quota''"
                 and e = "zeroErrorTracking\<lparr>ConsecutiveFailures := 0\<rparr>", THEN conjunct1]
          reached
    by (simp add: attemptClock_attemptWith newAccount_def)
  have w403: "attemptStep ?rq (attemptWith ''acc1'' (HTTPResponse 403 ''denied'')) =
      Retry ''permission denied'' [RecordPermissionDenied ?t (newAccount ''acc1'')]"
    using cls [where req = ?rq and a = "attemptWith ''acc1'' (HTTPResponse 403 ''denied'')"
                 and account = "newAccount ''acc1''" and body = "''denied''",
               THEN conjunct2, THEN conjunct1] reached
    by (simp add: attemptClock_attemptWith)
  have w404: "attemptStep ?rq (attemptWith ''acc1'' (HTTPResponse 404 ''nope'')) =
      Finish (Replied 404 [(''error'', JString ''Upstream API error''),
                           (''details'', JString ''nope'')])
        [failedOnce ''acc1'' ''HTTP 404: nope'']"
    using cls [where req = ?rq and a = "attemptWith ''acc1'' (HTTPResponse 404 ''nope'')"
                 and account = "newAccount ''acc1''" and body = "''nope''" and status = 404
                 and account' = "failedOnce ''acc1'' ''HTTP 404: nope''",
               THEN conjunct2, THEN conjunct2, THEN conjunct1] reached
    by (simp add: attemptClock_attemptWith sprintf_404 RecordFailure_first)
  have w500: "attemptStep ?rq (attemptWith ident (HTTPResponse 500 ''boom'')) =
      Retry ''HTTP 500: boom'' [failedOnce ident ''HTTP 500: boom'']" for ident
    using cls [where req = ?rq and a = "attemptWith ident (HTTPResponse 500 ''boom'')"
                 and account = "newAccount ident" and body = "''boom''" and status = 500
                 and account' = "failedOnce ident ''HTTP 500: boom''",
               THEN conjunct2, THEN conjunct2, THEN conjunct2, THEN conjunct1] reached
    by (simp add: attemptClock_attemptWith sprintf_500 RecordFailure_first)
  have wtr: "attemptStep ?rq (attemptWith ''acc5'' (TransportError ''dial tcp: timeout'')) =
      Retry ''dial tcp: timeout'' [failedOnce ''acc5'' ''dial tcp: timeout'']"
    using cls [where req = ?rq
                 and a = "attemptWith ''acc5'' (TransportError ''dial tcp: timeout'')"
                 and account = "newAccount ''acc5''" and err = "''dial tcp: timeout''"
                 and account' = "failedOnce ''acc5'' ''dial tcp: timeout''",
               THEN conjunct2, THEN conjunct2, THEN conjunct2, THEN conjunct2, THEN conjunct1]
          reached
    by (simp add: attemptClock_attemptWith RecordFailure_first)
  have r0: "attemptStep ?rq (rotatingAttempts 0) =
      Retry ''rate limit exceeded'' [RecordRateLimit ?t (newAccount ''acc1'')]"
    using w429 by (simp add: rotatingAttempts_def)
  have r1: "attemptStep ?rq (rotatingAttempts (0 + 1)) =
      Finish (HandedToNormal (RecordSuccess ?t (newAccount ''acc2'')) textLine)
        [RecordSuccess ?t (newAccount ''acc2'')]"
    by (simp add: rotatingAttempts_def attemptStep_def attemptWith_def scenarioRequest_def
        simpleRequest_def Let_def)
  have l1: "attemptLoop rotatingAttempts ?rq (0 + 1) (Suc 3) (Some ''rate limit exceeded'') =
      (HandedToNormal (RecordSuccess ?t (newAccount ''acc2'')) textLine,
       [RecordSuccess ?t (newAccount ''acc2'')])"
    using cls [where env = rotatingAttempts and req = ?rq and n = "0 + 1" and k = 3
                 and lastErr = "Some ''rate limit exceeded''"
                 and c = "HandedToNormal (RecordSuccess ?t (newAccount ''acc2'')) textLine"
                 and saves = "[RecordSuccess ?t (newAccount ''acc2'')]",
               THEN conjunct2, THEN conjunct2, THEN conjunct2, THEN conjunct2, THEN conjunct2,
               THEN conjunct2, THEN conjunct1] r1
    by simp
  have l0: "attemptLoop rotatingAttempts ?rq 0 (Suc 4) None =
      (HandedToNormal (RecordSuccess ?t (newAccount ''acc2'')) textLine,
       [RecordRateLimit ?t (newAccount ''acc1''), RecordSuccess ?t (newAccount ''acc2'')])"
    using cls [where env = rotatingAttempts and req = ?rq and n = 0 and k = 4
                 and lastErr = None and err = "''rate limit exceeded''"
                 and saves = "[RecordRateLimit ?t (newAccount ''acc1'')]",
               THEN conjunct2, THEN conjunct2, THEN conjunct2, THEN conjunct2, THEN conjunct2,
               THEN conjunct1] r0 l1
    by (simp add: numeral_eq_Suc del: attemptLoop.simps)
  have f: "attemptStep ?rq (failingAttempts i) =
      (if i < 4 then Retry ''HTTP 500: boom''
                       [failedOnce (''acc'' @ Itoa (int i + 1)) ''HTTP 500: boom'']
       else Retry ''dial tcp: timeout'' [failedOnce ''acc5'' ''dial tcp: timeout''])" for i
    using w500 wtr by (simp add: failingAttempts_def)
  have all: "\<forall>i<5. \<exists>e s. attemptStep ?rq (failingAttempts i) = Retry e s"
    by (simp add: f)
  have last: "attemptStep ?rq (failingAttempts 4) =
      Retry ''dial tcp: timeout'' [failedOnce ''acc5'' ''dial tcp: timeout'']"
    by (simp add: f)
  have w503: "fst (chatCompletions failingAttempts (Inr ?rq)) =
     Replied 503 [(''error'', JString ''Service unavailable after retries''),
                  (''details'', JString ''dial tcp: timeout''),
                  (''retries'', JNumber 5)]"
    using cls [where env = failingAttempts and req = ?rq
                 and lastReason = "''dial tcp: timeout''"
                 and lastSaves = "[failedOnce ''acc5'' ''dial tcp: timeout'']",
               THEN conjunct2, THEN conjunct2, THEN conjunct2, THEN conjunct2, THEN conjunct2,
               THEN conjunct2, THEN conjunct2] all last
    by blast
  show ?thesis using reached w429 w403 w404 w500 wtr l0 w503 by simp
qed

text \<open>What the recorders of the branches above leave on the account.\<close>

lemma RecordRateLimit_fields:
  "RefreshStatus (RecordRateLimit t a) = ''rate_limited'' \<and>
   Enable (RecordRateLimit t a) = Enable a \<and>
   RateLimitCount (errorTrackingOrZero (RecordRateLimit t a)) =
     int64 (RateLimitCount (errorTrackingOrZero a) + 1) \<and>
   LastErrorTime (errorTrackingOrZero (RecordRateLimit t a)) = Some (Unix t) \<and>
   FailedUntil (errorTrackingOrZero (RecordRateLimit t a)) =
     Some (int64 (Unix t + RateLimitBackoff (errorTrackingOrZero (RecordRateLimit t a))))"
  by (simp add: RecordRateLimit_def errorTrackingOrZero_def Let_def)

lemma RecordPermissionDenied_fields:
  "RefreshStatus (RecordPermissionDenied t a) = ''permission_denied'' \<and>
   \<not> Enable (RecordPermissionDenied t a) \<and>
   IsPermissionDenied (errorTrackingOrZero (RecordPermissionDenied t a)) \<and>
   FailedUntil (errorTrackingOrZero (RecordPermissionDenied t a)) =
     FailedUntil (errorTrackingOrZero a)"
  by (simp add: RecordPermissionDenied_def errorTrackingOrZero_def)

lemma RecordFailure_fields:
  assumes "RecordFailure t err a = Inr a'"
  shows "RefreshStatus a' = ''failed'' \<and> Enable a' = Enable a \<and>
         LastError (errorTrackingOrZero a') = err \<and>
         ConsecutiveFailures (errorTrackingOrZero a') =
           int64 (ConsecutiveFailures (errorTrackingOrZero a) + 1) \<and>
         LastErrorTime (errorTrackingOrZero a') = Some (Unix t)"
  using assms
  by (auto simp: RecordFailure_def errorTrackingOrZero_def Let_def split: sum.splits)

text \<open>
  Claim C4, at an input where the code departs from it. The store holds one account
  without an error-tracking block, \<open>GetToken\<close> returns it as loaded, and the upstream
  answers 429. The recorder itself would start the block and set a backoff of 120
  seconds, but the warning logged before it dereferences the missing block: the handler
  panics on the first attempt, nothing is saved and no further attempt is made.
\<close>

theorem rate_limit_on_bare_account_panics:
  "GetToken (clockAt 1700000000) barePoolEnv 0 =
     Inr \<lparr>cursorAfter = 0, savedByRefresh = [], selected = Inr (bareAccount ''acc1'')\<rparr> \<and>
   ErrorTracking (bareAccount ''acc1'') = None \<and>
   roundTrip bareAttempt (''Bearer '' @ AccessToken (bareAccount ''acc1''))
     (transformRequest (attemptDraws bareAttempt) scenarioRequest) = HTTPResponse 429 ''quota'' \<and>
   RateLimitBackoff (errorTrackingOrZero
     (RecordRateLimit (clockAt 1700000000) (bareAccount ''acc1''))) = 120 \<and>
   attemptStep scenarioRequest bareAttempt = Finish (Panicked NilDereference) [] \<and>
   chatCompletions (\<lambda>n. bareAttempt) (Inr scenarioRequest) = (Panicked NilDereference, [])"
proof -
  have g: "GetToken (clockAt 1700000000) barePoolEnv 0 =
      Inr \<lparr>cursorAfter = 0, savedByRefresh = [], selected = Inr (bareAccount ''acc1'')\<rparr>"
    by code_simp
  have t: "tokenOutcome bareAttempt = Inr (Inr (bareAccount ''acc1''))"
    by (simp add: bareAttempt_def g)
  have n: "ErrorTracking (bareAccount ''acc1'') = None"
    by (simp add: bareAccount_def)
  have r: "roundTrip bareAttempt (''Bearer '' @ AccessToken (bareAccount ''acc1''))
      (transformRequest (attemptDraws bareAttempt) scenarioRequest) = HTTPResponse 429 ''quota''"
    by (simp add: bareAttempt_def)
  have b: "RateLimitBackoff (errorTrackingOrZero
      (RecordRateLimit (clockAt 1700000000) (bareAccount ''acc1''))) = 120"
    by (simp add: RecordRateLimit_def errorTrackingOrZero_def n zeroErrorTracking_def Let_def)
  have u: "upstreamOutcome scenarioRequest bareAttempt (bareAccount ''acc1'')
             (HTTPResponse 429 ''quota'')"
    using t r by (simp add: upstreamOutcome_def bareAttempt_def)
  have s: "attemptStep scenarioRequest bareAttempt = Finish (Panicked NilDereference) []"
    by (simp add: attemptStep_reached [OF u] n)
  have c: "chatCompletions (\<lambda>n. bareAttempt) (Inr scenarioRequest) =
             (Panicked NilDereference, [])"
    by (simp add: chatCompletions_def maxRetries_def numeral_eq_Suc s)
  show ?thesis using g n r b s c by simp
qed

end
